theory Spec2Isabelle
  imports Complex_Main "HOL-Library.Word" "HOL-Library.Multiset"
begin

section \<open>Coordinate conversion (ModelRenderer.convertIFCToThreeJS)\<close>

text \<open>
  A \<^verbatim>\<open>Float32Array\<close> is a fixed-length array of numbers. Its elements are modelled as
  reals together with the value \<^verbatim>\<open>NaN\<close>: reading a typed array out of range gives
  \<^verbatim>\<open>undefined\<close>, which becomes \<^verbatim>\<open>NaN\<close> when it is stored into (or negated for) a
  \<^verbatim>\<open>Float32Array\<close>; a store out of range is ignored. Rounding to single precision and
  signed zeros are outside this model (negation is exact on floats).
\<close>

datatype f32 = Num real | NaN

fun fneg :: "f32 \<Rightarrow> f32" where
  "fneg (Num r) = Num (- r)"
| "fneg NaN = NaN"

definition ta_get :: "f32 list \<Rightarrow> nat \<Rightarrow> f32" where
  "ta_get a i = (if i < length a then a ! i else NaN)"

definition ta_set :: "f32 list \<Rightarrow> nat \<Rightarrow> f32 \<Rightarrow> f32 list" where
  "ta_set a i v = (if i < length a then a[i := v] else a)"

text \<open>
  The loop \<^verbatim>\<open>for (let i = 0; i < vertices.length; i += 3)\<close> with its three stores, in
  the order of the source.
\<close>

function convert_loop :: "nat \<Rightarrow> f32 list \<Rightarrow> f32 list \<Rightarrow> f32 list" where
  "convert_loop i vertices converted =
     (if i < length vertices then
        convert_loop (i + 3) vertices
          (ta_set
            (ta_set
              (ta_set converted i (ta_get vertices i))
              (i + 1) (ta_get vertices (i + 2)))
            (i + 2) (fneg (ta_get vertices (i + 1))))
      else converted)"
  by pat_completeness auto
termination
  by (relation "measure (\<lambda>(i, vertices, converted). length vertices - i)") auto

definition convertIFCToThreeJS :: "f32 list \<Rightarrow> f32 list" where
  "convertIFCToThreeJS vertices =
     convert_loop 0 vertices (replicate (length vertices) (Num 0))"

declare convert_loop.simps [simp del]

lemma length_ta_set [simp]: "length (ta_set a i v) = length a"
  by (simp add: ta_set_def)

lemma length_convert_loop [simp]:
  "length (convert_loop i vertices converted) = length converted"
proof (induction i vertices converted rule: convert_loop.induct)
  case (1 i vertices converted)
  show ?case
  proof (cases "i < length vertices")
    case True
    then show ?thesis
      using "1.IH" by (subst convert_loop.simps) simp
  next
    case False
    then show ?thesis by (subst convert_loop.simps) simp
  qed
qed

lemma ta_set_nth:
  "j < length a \<Longrightarrow> ta_set a i v ! j = (if j = i then v else a ! j)"
  by (simp add: ta_set_def)

text \<open>Entries below the loop index are never written again.\<close>

lemma convert_loop_below:
  "j < i \<Longrightarrow> j < length converted \<Longrightarrow> convert_loop i vertices converted ! j = converted ! j"
proof (induction i vertices converted rule: convert_loop.induct)
  case (1 i vertices converted)
  show ?case
  proof (cases "i < length vertices")
    case True
    have "convert_loop i vertices converted ! j =
          (ta_set (ta_set (ta_set converted i (ta_get vertices i))
              (i + 1) (ta_get vertices (i + 2)))
            (i + 2) (fneg (ta_get vertices (i + 1)))) ! j"
      using True "1.IH" "1.prems" by (subst convert_loop.simps) simp
    also have "\<dots> = converted ! j"
      using "1.prems" by (simp add: ta_set_nth)
    finally show ?thesis .
  next
    case False
    then show ?thesis by (subst convert_loop.simps) simp
  qed
qed

text \<open>A complete triple at or after the loop index is written from the input.\<close>

lemma convert_loop_triple:
  assumes "length converted = length vertices"
    and "i = 3 * m" and "m \<le> k" and "3 * k + 2 < length vertices"
  shows "convert_loop i vertices converted ! (3 * k) = vertices ! (3 * k)
       \<and> convert_loop i vertices converted ! (3 * k + 1) = vertices ! (3 * k + 2)
       \<and> convert_loop i vertices converted ! (3 * k + 2) = fneg (vertices ! (3 * k + 1))"
  using assms
proof (induction i vertices converted arbitrary: m rule: convert_loop.induct)
  case (1 i vertices converted)
  let ?c = "ta_set (ta_set (ta_set converted i (ta_get vertices i))
              (i + 1) (ta_get vertices (i + 2)))
            (i + 2) (fneg (ta_get vertices (i + 1)))"
  have lt: "i < length vertices" using "1.prems" by simp
  have unf: "convert_loop i vertices converted = convert_loop (i + 3) vertices ?c"
    using lt by (subst convert_loop.simps) simp
  show ?case
  proof (cases "m = k")
    case True
    then have ik: "i = 3 * k" using "1.prems" by simp
    have len: "length ?c = length vertices" using "1.prems" by simp
    have "convert_loop (i + 3) vertices ?c ! (3 * k) = ?c ! (3 * k)"
      and "convert_loop (i + 3) vertices ?c ! (3 * k + 1) = ?c ! (3 * k + 1)"
      and "convert_loop (i + 3) vertices ?c ! (3 * k + 2) = ?c ! (3 * k + 2)"
      using ik len "1.prems"(4) by (simp_all add: convert_loop_below)
    moreover have "?c ! (3 * k) = vertices ! (3 * k)"
      and "?c ! (3 * k + 1) = vertices ! (3 * k + 2)"
      and "?c ! (3 * k + 2) = fneg (vertices ! (3 * k + 1))"
      using ik "1.prems"(1,4) by (simp_all add: ta_set_nth ta_get_def)
    ultimately show ?thesis using unf by simp
  next
    case False
    then have "Suc m \<le> k" using "1.prems" by simp
    moreover have "i + 3 = 3 * Suc m" using "1.prems" by simp
    moreover have "length ?c = length vertices" using "1.prems" by simp
    ultimately show ?thesis
      using "1.IH" [OF lt, of "Suc m"] "1.prems"(4) unf by simp
  qed
qed

text \<open>
  C9. The conversion keeps the length of the array and maps every complete consecutive
  triple \<open>(x, y, z)\<close> of the input to \<open>(x, z, -y)\<close> at the same position; on the array
  \<open>(1, 2, 3)\<close> it yields \<open>(1, 3, -2)\<close>. The result is a function of the input alone.
\<close>

theorem convert_axis_permutation:
  "length (convertIFCToThreeJS vertices) = length vertices
   \<and> (3 * k + 2 < length vertices \<longrightarrow>
        convertIFCToThreeJS vertices ! (3 * k) = vertices ! (3 * k)
      \<and> convertIFCToThreeJS vertices ! (3 * k + 1) = vertices ! (3 * k + 2)
      \<and> convertIFCToThreeJS vertices ! (3 * k + 2) = fneg (vertices ! (3 * k + 1)))
   \<and> convertIFCToThreeJS [Num 1, Num 2, Num 3] = [Num 1, Num 3, Num (- 2)]"
proof -
  have "convertIFCToThreeJS [Num 1, Num 2, Num 3] = [Num 1, Num 3, Num (- 2)]"
    by (simp add: convertIFCToThreeJS_def convert_loop.simps ta_set_def ta_get_def)
  moreover have "3 * k + 2 < length vertices \<longrightarrow>
        convertIFCToThreeJS vertices ! (3 * k) = vertices ! (3 * k)
      \<and> convertIFCToThreeJS vertices ! (3 * k + 1) = vertices ! (3 * k + 2)
      \<and> convertIFCToThreeJS vertices ! (3 * k + 2) = fneg (vertices ! (3 * k + 1))"
    unfolding convertIFCToThreeJS_def
    using convert_loop_triple [of "replicate (length vertices) (Num 0)" vertices 0 0 k]
    by simp
  ultimately show ?thesis by (simp add: convertIFCToThreeJS_def)
qed

theorem convert_axis_permutation_witness:
  "convertIFCToThreeJS [Num 1, Num 2, Num 3, Num 4, Num 5, Num 6, Num 7] ! 4 = Num 6
   \<and> convertIFCToThreeJS [Num 1, Num 2, Num 3, Num 4, Num 5, Num 6, Num 7] ! 5 = Num (- 5)
   \<and> length (convertIFCToThreeJS [Num 1, Num 2, Num 3, Num 4, Num 5, Num 6, Num 7]) = 7"
  using convert_axis_permutation
    [of "[Num 1, Num 2, Num 3, Num 4, Num 5, Num 6, Num 7]" 1]
  by simp

section \<open>Strings\<close>

text \<open>\<^verbatim>\<open>String.prototype.startsWith\<close> and \<^verbatim>\<open>String.prototype.includes\<close>.\<close>

fun startsWith :: "string \<Rightarrow> string \<Rightarrow> bool" where
  "startsWith s [] = True"
| "startsWith [] (p # ps) = False"
| "startsWith (c # cs) (p # ps) = (c = p \<and> startsWith cs ps)"

fun includes_str :: "string \<Rightarrow> string \<Rightarrow> bool" where
  "includes_str [] sub = (sub = [])"
| "includes_str (c # cs) sub = (startsWith (c # cs) sub \<or> includes_str cs sub)"

lemma startsWith_iff: "startsWith s p \<longleftrightarrow> (\<exists>q. s = p @ q)"
  by (induction s p rule: startsWith.induct) auto

lemma includes_str_iff: "includes_str s sub \<longleftrightarrow> (\<exists>p q. s = p @ sub @ q)"
proof (induction s)
  case Nil
  then show ?case by auto
next
  case (Cons c cs)
  show ?case
  proof
    assume "includes_str (c # cs) sub"
    then show "\<exists>p q. c # cs = p @ sub @ q"
    proof (simp only: includes_str.simps, elim disjE)
      assume "startsWith (c # cs) sub"
      then obtain q where "c # cs = sub @ q" by (auto simp: startsWith_iff)
      then have "c # cs = [] @ sub @ q" by simp
      then show ?thesis by blast
    next
      assume "includes_str cs sub"
      then obtain p q where "cs = p @ sub @ q" using Cons.IH by auto
      then have "c # cs = (c # p) @ sub @ q" by simp
      then show ?thesis by blast
    qed
  next
    assume "\<exists>p q. c # cs = p @ sub @ q"
    then obtain p q where pq: "c # cs = p @ sub @ q" by blast
    show "includes_str (c # cs) sub"
    proof (cases p)
      case Nil
      then have "startsWith (c # cs) sub" using pq by (auto simp: startsWith_iff)
      then show ?thesis by simp
    next
      case (Cons a p')
      then have "cs = p' @ sub @ q" using pq by simp
      then show ?thesis using Cons.IH by auto
    qed
  qed
qed

section \<open>Mesh ingestion and wireframe overlays (ModelRenderer)\<close>

subsection \<open>Data\<close>

text \<open>
  The argument given to \<^verbatim>\<open>new THREE.Color(...)\<close>: a number (\<^verbatim>\<open>0x4ecdc4\<close>), a CSS
  style string (\<^verbatim>\<open>'#' + colorHEX\<close>), or, when a property lookup on an object literal
  finds a member inherited from \<^verbatim>\<open>Object.prototype\<close>, that member.
\<close>

datatype color = ColorHex nat | ColorStyle string | ColorInherited string

text \<open>A material, with the defaults of three.js: opaque, opacity 1.\<close>

record material =
  color :: color
  transparent :: bool
  opacity :: real

definition newMaterial :: "color \<Rightarrow> material" where
  "newMaterial c = \<lparr>color = c, transparent = False, opacity = 1\<rparr>"

text \<open>
  One element of the array the backend sends (\<^verbatim>\<open>geometryData\<close>). A field that is
  missing (\<^verbatim>\<open>undefined\<close>) is \<open>None\<close>; missing \<^verbatim>\<open>vertices\<close> or \<^verbatim>\<open>faces\<close> give the
  empty typed array, as \<^verbatim>\<open>new Float32Array(undefined)\<close> does.
\<close>

record descriptor =
  globalId :: "string option"
  ifcType :: "string option"
  vertices :: "f32 list"
  faces :: "32 word list"
  colorHEX :: "string option"
  transparency :: "real option"

datatype geometry = BufferGeometry "f32 list" "32 word list" | EdgesGeometry geometry

text \<open>
  A mesh or a line-segments object of the scene. \<open>oid\<close> is the object's identity (the
  \<^verbatim>\<open>id\<close> three.js gives every \<^verbatim>\<open>Object3D\<close>); \<open>ud_globalId\<close>, \<open>ud_ifcType\<close> and
  \<open>ud_parentMesh\<close> are the fields of \<^verbatim>\<open>userData\<close>.
\<close>

record object3d =
  oid :: nat
  isMesh :: bool
  ud_globalId :: "string option"
  ud_ifcType :: "string option"
  ud_parentMesh :: "nat option"
  obj_geometry :: geometry
  obj_material :: material
  obj_scale :: real

record modelRenderer =
  scene :: "object3d list option"
  ifcObjects :: "object3d list"
  wireframeObjects :: "object3d list"
  showWireframe :: bool
  nextId :: nat
  disposed :: "nat list"

datatype js_error = TypeError

text \<open>How a call ends: normally, or by an exception that nothing caught.\<close>

datatype 'a completion = Normal 'a | Abrupt js_error 'a

fun stateOf :: "'a completion \<Rightarrow> 'a" where
  "stateOf (Normal s) = s"
| "stateOf (Abrupt e s) = s"

fun andThen :: "'a completion \<Rightarrow> ('a \<Rightarrow> 'a completion) \<Rightarrow> 'a completion" where
  "andThen (Normal s) f = f s"
| "andThen (Abrupt e s) f = Abrupt e s"

subsection \<open>Colours by element type\<close>

definition colorMap :: "(string \<times> nat) list" where
  "colorMap =
    [(''IfcWall'', 0x4ecdc4), (''IfcWallStandardCase'', 0x4ecdc4), (''IfcCurtainWall'', 0x45b7d1),
     (''IfcWindow'', 0x54a0ff), (''IfcWindowStyle'', 0x54a0ff),
     (''IfcDoor'', 0xfeca57), (''IfcDoorStyle'', 0xfeca57),
     (''IfcRoof'', 0xff6b6b), (''IfcSlab'', 0xff6b6b), (''IfcRoofType'', 0xff6b6b),
     (''IfcFloor'', 0x96ceb4), (''IfcFloorType'', 0x96ceb4),
     (''IfcColumn'', 0xff9f43), (''IfcColumnType'', 0xff9f43),
     (''IfcBeam'', 0x5f27cd), (''IfcBeamType'', 0x5f27cd),
     (''IfcStair'', 0x00d2d3), (''IfcRailing'', 0xff9ff3),
     (''IfcSpace'', 0xddd6fe), (''IfcZone'', 0xddd6fe),
     (''default'', 0xee5a24)]"

text \<open>
  The names every object literal inherits from \<^verbatim>\<open>Object.prototype\<close>: a lookup of one
  of them in \<^verbatim>\<open>colorMap\<close> finds the inherited member, which is truthy.
\<close>

definition objectPrototypeKeys :: "string list" where
  "objectPrototypeKeys =
    [''constructor'', ''toString'', ''toLocaleString'', ''valueOf'', ''hasOwnProperty'',
     ''isPrototypeOf'', ''propertyIsEnumerable'', ''__proto__'', ''__defineGetter__'',
     ''__defineSetter__'', ''__lookupGetter__'', ''__lookupSetter__'']"

text \<open>A value used as a property key or in a string concatenation.\<close>

fun toString :: "string option \<Rightarrow> string" where
  "toString None = ''undefined''"
| "toString (Some s) = s"

text \<open>\<^verbatim>\<open>colorMap[ifcType] || colorMap['default']\<close>, given to \<^verbatim>\<open>new THREE.Color\<close>.\<close>

definition getColorByIfcType :: "string option \<Rightarrow> color" where
  "getColorByIfcType ifcType_arg =
     (case map_of colorMap (toString ifcType_arg) of
        Some n \<Rightarrow> if n \<noteq> 0 then ColorHex n else ColorHex 0xee5a24
      | None \<Rightarrow>
          if toString ifcType_arg \<in> set objectPrototypeKeys
          then ColorInherited (toString ifcType_arg)
          else ColorHex 0xee5a24)"

subsection \<open>addIfcGeometry\<close>

text \<open>
  The material block of \<^verbatim>\<open>addIfcGeometry\<close> (lines 41 to 73). A non-empty
  \<^verbatim>\<open>colorHEX\<close> is truthy. In the other branch \<^verbatim>\<open>geometryData.ifcType.includes\<close> throws
  a \<^verbatim>\<open>TypeError\<close> when \<^verbatim>\<open>ifcType\<close> is missing.
\<close>

definition materialFor :: "descriptor \<Rightarrow> js_error + material" where
  "materialFor geometryData =
     (let byType =
        (let material = newMaterial (getColorByIfcType (ifcType geometryData)) in
         case ifcType geometryData of
           None \<Rightarrow> Inl TypeError
         | Some ty \<Rightarrow>
             if includes_str ty ''Window''
             then Inr (material\<lparr>color := ColorHex 0x54a000, transparent := True, opacity := 0.7\<rparr>)
             else Inr material)
      in case colorHEX geometryData of
        None \<Rightarrow> byType
      | Some hex \<Rightarrow>
          if hex = [] then byType
          else
            (let material = newMaterial (ColorStyle (CHR ''#'' # hex)) in
             case transparency geometryData of
               None \<Rightarrow> Inr material
             | Some t \<Rightarrow>
                 (let opacity_l = 1 - t in
                  if opacity_l < 1
                  then Inr (material\<lparr>transparent := True, opacity := opacity_l\<rparr>)
                  else Inr material)))"

text \<open>
  \<^verbatim>\<open>createWireframe\<close>: the body is inside \<^verbatim>\<open>try\<close> with an empty handler. Without a
  scene \<^verbatim>\<open>this.scene.add\<close> throws, after the line-segments object was made and before
  it is pushed to \<^verbatim>\<open>wireframeObjects\<close>.
\<close>

definition createWireframe :: "object3d \<Rightarrow> modelRenderer \<Rightarrow> modelRenderer" where
  "createWireframe mesh s =
     (let wireframe =
        \<lparr>oid = nextId s, isMesh = False,
         ud_globalId = Some (toString (ud_globalId mesh) @ ''_wireframe''),
         ud_ifcType = Some (toString (ud_ifcType mesh) @ ''_wireframe''),
         ud_parentMesh = Some (oid mesh),
         obj_geometry = EdgesGeometry (obj_geometry mesh),
         obj_material = \<lparr>color = ColorHex 0x000000, transparent = True, opacity = 0.8\<rparr>,
         obj_scale = obj_scale mesh\<rparr>
      in case scene s of
        None \<Rightarrow> s\<lparr>nextId := nextId s + 1\<rparr>
      | Some children \<Rightarrow>
          s\<lparr>scene := Some (children @ [wireframe]),
            wireframeObjects := wireframeObjects s @ [wireframe],
            nextId := nextId s + 1\<rparr>)"

text \<open>
  \<^verbatim>\<open>addIfcGeometry\<close>: the whole body is inside \<^verbatim>\<open>try\<close>, and the handler returns
  \<^verbatim>\<open>null\<close>. The argument is \<open>None\<close> when the caller passes \<^verbatim>\<open>null\<close> or
  \<^verbatim>\<open>undefined\<close>: reading \<^verbatim>\<open>geometryData.vertices\<close> then throws. Nothing is added to the
  scene before the last statement that can throw. The vertex normals computed by three.js
  are not part of the model.
\<close>

definition addIfcGeometry ::
  "descriptor option \<Rightarrow> modelRenderer \<Rightarrow> object3d option \<times> modelRenderer" where
  "addIfcGeometry arg s =
     (case scene s of
        None \<Rightarrow> (None, s)
      | Some children \<Rightarrow>
          (case arg of
             None \<Rightarrow> (None, s)
           | Some geometryData \<Rightarrow>
               (let convertedVertices = convertIFCToThreeJS (vertices geometryData);
                    geom = BufferGeometry convertedVertices (faces geometryData)
                in case materialFor geometryData of
                  Inl e \<Rightarrow> (None, s)
                | Inr material \<Rightarrow>
                    (let mesh =
                       \<lparr>oid = nextId s, isMesh = True,
                        ud_globalId = globalId geometryData,
                        ud_ifcType = ifcType geometryData,
                        ud_parentMesh = None,
                        obj_geometry = geom,
                        obj_material = material,
                        obj_scale = 0.001\<rparr>;
                         s1 = s\<lparr>scene := Some (children @ [mesh]),
                                ifcObjects := ifcObjects s @ [mesh],
                                nextId := nextId s + 1\<rparr>
                     in (Some mesh, if showWireframe s1 then createWireframe mesh s1 else s1)))))"

subsection \<open>Material resolution\<close>

lemma colorMap_nonzero: "map_of colorMap k = Some n \<Longrightarrow> n \<noteq> 0"
  by (auto simp: colorMap_def split: if_splits)

lemma getColorByIfcType_table:
  "ty \<notin> set objectPrototypeKeys \<Longrightarrow>
   getColorByIfcType (Some ty) =
     (case map_of colorMap ty of Some n \<Rightarrow> ColorHex n | None \<Rightarrow> ColorHex 0xee5a24)"
  by (auto simp: getColorByIfcType_def split: option.splits dest: colorMap_nonzero)

lemma materialFor_colorHEX:
  assumes "colorHEX d = Some hex" and "hex \<noteq> []"
  shows "\<exists>m. materialFor d = Inr m \<and> color m = ColorStyle (CHR ''#'' # hex)
           \<and> (transparency d = None \<longrightarrow> opacity m = 1 \<and> \<not> transparent m)
           \<and> (\<forall>t. transparency d = Some t \<longrightarrow>
                 (transparent m \<longleftrightarrow> 1 - t < 1) \<and> (0 \<le> t \<longrightarrow> opacity m = 1 - t))"
  using assms by (auto simp: materialFor_def newMaterial_def Let_def split: option.splits)

lemma materialFor_byType:
  assumes "colorHEX d = None \<or> colorHEX d = Some []" and "ifcType d = Some ty"
    and "ty \<notin> set objectPrototypeKeys"
  shows "materialFor d = Inr
           (if includes_str ty ''Window''
            then \<lparr>color = ColorHex 0x54a000, transparent = True, opacity = 0.7\<rparr>
            else newMaterial (case map_of colorMap ty of
                                Some n \<Rightarrow> ColorHex n | None \<Rightarrow> ColorHex 0xee5a24))"
  using assms getColorByIfcType_table [of ty]
  by (auto simp: materialFor_def newMaterial_def Let_def split: option.splits)

lemma addIfcGeometry_material:
  assumes "scene s = Some children" and "materialFor d = Inr m"
  shows "\<exists>mesh s'. addIfcGeometry (Some d) s = (Some mesh, s') \<and> obj_material mesh = m"
  using assms by (simp add: addIfcGeometry_def Let_def)

text \<open>
  The material of an ingested descriptor, for every element type that is not a name
  inherited from \<^verbatim>\<open>Object.prototype\<close>. The renderer has a scene.
  With a \<^verbatim>\<open>colorHEX\<close> present (a non-empty string, as the six hex digits of the data
  model are) the mesh's colour is built from \<^verbatim>\<open>'#' + colorHEX\<close>; without a transparency
  the material stays opaque with opacity 1; with a transparency \<open>t\<close> the material is flagged
  transparent exactly when \<open>1 - t < 1\<close>, and its opacity is \<open>1 - t\<close> (for \<open>t\<close> in the
  range of the data model, \<open>0 \<le> t\<close>).
  Without a \<^verbatim>\<open>colorHEX\<close>, for such an element type \<open>ty\<close>: if \<open>ty\<close> contains
  \<^verbatim>\<open>Window\<close> the material is the fixed override (colour \<^verbatim>\<open>0x54a000\<close>, transparent,
  opacity 0.7), whatever the table holds; otherwise it is opaque with the colour of the
  table for \<open>ty\<close>, or the default colour \<^verbatim>\<open>0xee5a24\<close> when the table has no entry.
\<close>

lemma material_resolution:
  assumes "scene s = Some children"
  shows "(colorHEX d = Some hex \<and> hex \<noteq> [] \<longrightarrow>
            (\<exists>mesh s'. addIfcGeometry (Some d) s = (Some mesh, s')
               \<and> color (obj_material mesh) = ColorStyle (CHR ''#'' # hex)
               \<and> (transparency d = None \<longrightarrow>
                     opacity (obj_material mesh) = 1 \<and> \<not> transparent (obj_material mesh))
               \<and> (\<forall>t. transparency d = Some t \<longrightarrow>
                     (transparent (obj_material mesh) \<longleftrightarrow> 1 - t < 1)
                   \<and> (0 \<le> t \<longrightarrow> opacity (obj_material mesh) = 1 - t))))
       \<and> ((colorHEX d = None \<or> colorHEX d = Some []) \<and> ifcType d = Some ty
            \<and> ty \<notin> set objectPrototypeKeys \<longrightarrow>
            (\<exists>mesh s'. addIfcGeometry (Some d) s = (Some mesh, s')
               \<and> obj_material mesh =
                   (if includes_str ty ''Window''
                    then \<lparr>color = ColorHex 0x54a000, transparent = True, opacity = 0.7\<rparr>
                    else newMaterial (case map_of colorMap ty of
                                        Some n \<Rightarrow> ColorHex n | None \<Rightarrow> ColorHex 0xee5a24))))"
proof (intro conjI impI)
  assume h: "colorHEX d = Some hex \<and> hex \<noteq> []"
  then have "\<exists>m. materialFor d = Inr m \<and> color m = ColorStyle (CHR ''#'' # hex)
           \<and> (transparency d = None \<longrightarrow> opacity m = 1 \<and> \<not> transparent m)
           \<and> (\<forall>t. transparency d = Some t \<longrightarrow>
                 (transparent m \<longleftrightarrow> 1 - t < 1) \<and> (0 \<le> t \<longrightarrow> opacity m = 1 - t))"
    using materialFor_colorHEX [of d hex] by simp
  then obtain m where m: "materialFor d = Inr m \<and> color m = ColorStyle (CHR ''#'' # hex)
           \<and> (transparency d = None \<longrightarrow> opacity m = 1 \<and> \<not> transparent m)
           \<and> (\<forall>t. transparency d = Some t \<longrightarrow>
                 (transparent m \<longleftrightarrow> 1 - t < 1) \<and> (0 \<le> t \<longrightarrow> opacity m = 1 - t))" ..
  then have "materialFor d = Inr m" by simp
  from addIfcGeometry_material [OF assms this]
  obtain mesh s' where "addIfcGeometry (Some d) s = (Some mesh, s')" "obj_material mesh = m"
    by blast
  with m show "\<exists>mesh s'. addIfcGeometry (Some d) s = (Some mesh, s')
               \<and> color (obj_material mesh) = ColorStyle (CHR ''#'' # hex)
               \<and> (transparency d = None \<longrightarrow>
                     opacity (obj_material mesh) = 1 \<and> \<not> transparent (obj_material mesh))
               \<and> (\<forall>t. transparency d = Some t \<longrightarrow>
                     (transparent (obj_material mesh) \<longleftrightarrow> 1 - t < 1)
                   \<and> (0 \<le> t \<longrightarrow> opacity (obj_material mesh) = 1 - t))"
    by simp
next
  assume h: "(colorHEX d = None \<or> colorHEX d = Some []) \<and> ifcType d = Some ty
            \<and> ty \<notin> set objectPrototypeKeys"
  then have "materialFor d = Inr
           (if includes_str ty ''Window''
            then \<lparr>color = ColorHex 0x54a000, transparent = True, opacity = 0.7\<rparr>
            else newMaterial (case map_of colorMap ty of
                                Some n \<Rightarrow> ColorHex n | None \<Rightarrow> ColorHex 0xee5a24))"
    using materialFor_byType [of d ty] by blast
  from addIfcGeometry_material [OF assms this]
  show "\<exists>mesh s'. addIfcGeometry (Some d) s = (Some mesh, s')
               \<and> obj_material mesh =
                   (if includes_str ty ''Window''
                    then \<lparr>color = ColorHex 0x54a000, transparent = True, opacity = 0.7\<rparr>
                    else newMaterial (case map_of colorMap ty of
                                        Some n \<Rightarrow> ColorHex n | None \<Rightarrow> ColorHex 0xee5a24))"
    by blast
qed

definition emptyRenderer :: modelRenderer where
  "emptyRenderer =
     \<lparr>scene = Some [], ifcObjects = [], wireframeObjects = [], showWireframe = False,
      nextId = 1, disposed = []\<rparr>"

definition redBox :: descriptor where
  "redBox =
     \<lparr>globalId = Some ''A'', ifcType = Some ''IfcWall'',
      vertices = [Num 0, Num 0, Num 0, Num 1, Num 0, Num 0, Num 0, Num 1, Num 0],
      faces = [0, 1, 2], colorHEX = Some ''FF0000'', transparency = Some (1 / 4)\<rparr>"

definition plainWindow :: descriptor where
  "plainWindow =
     \<lparr>globalId = Some ''W'', ifcType = Some ''IfcWindow'',
      vertices = [Num 0, Num 0, Num 0, Num 1, Num 0, Num 0, Num 0, Num 1, Num 0],
      faces = [0, 1, 2], colorHEX = None, transparency = None\<rparr>"

lemma material_resolution_examples:
  "scene emptyRenderer = Some []
   \<and> colorHEX redBox = Some ''FF0000'' \<and> transparency redBox = Some (1 / 4)
   \<and> map_option obj_material (fst (addIfcGeometry (Some redBox) emptyRenderer))
       = Some \<lparr>color = ColorStyle ''#FF0000'', transparent = True, opacity = 3 / 4\<rparr>
   \<and> colorHEX plainWindow = None \<and> ifcType plainWindow = Some ''IfcWindow''
   \<and> ''IfcWindow'' \<notin> set objectPrototypeKeys
   \<and> map_option obj_material (fst (addIfcGeometry (Some plainWindow) emptyRenderer))
       = Some \<lparr>color = ColorHex 0x54a000, transparent = True, opacity = 0.7\<rparr>"
proof -
  have sc: "scene emptyRenderer = Some []" by (simp add: emptyRenderer_def)
  show ?thesis
    using material_resolution [OF sc, of redBox "''FF0000''" "''IfcWall''"]
      material_resolution [OF sc, of plainWindow "[]" "''IfcWindow''"]
    by (simp add: emptyRenderer_def redBox_def plainWindow_def objectPrototypeKeys_def
        addIfcGeometry_def materialFor_def newMaterial_def Let_def)
qed


subsection \<open>An element type named like an inherited member\<close>




subsection \<open>addIfcGeometries\<close>

text \<open>
  The argument of \<^verbatim>\<open>addIfcGeometries\<close>: an array, whose elements are objects or
  \<^verbatim>\<open>null\<close>/\<^verbatim>\<open>undefined\<close> (\<open>None\<close>), or something that is not an array.
\<close>

datatype geometries = NotAnArray | JsArray "descriptor option list"

text \<open>
  The callback of \<^verbatim>\<open>forEach\<close> reads \<^verbatim>\<open>geometryData.ifcType\<close> for its statistics
  before it calls \<^verbatim>\<open>addIfcGeometry\<close>, outside every \<^verbatim>\<open>try\<close>: on a \<^verbatim>\<open>null\<close> element
  the read throws and the exception leaves \<^verbatim>\<open>forEach\<close>. The statistics object is
  local and never read; updating it cannot throw.
\<close>

fun forEachGeometry :: "descriptor option list \<Rightarrow> modelRenderer \<Rightarrow> modelRenderer completion" where
  "forEachGeometry [] s = Normal s"
| "forEachGeometry (None # rest) s = Abrupt TypeError s"
| "forEachGeometry (Some geometryData # rest) s =
     forEachGeometry rest (snd (addIfcGeometry (Some geometryData) s))"

definition addIfcGeometries :: "geometries \<Rightarrow> modelRenderer \<Rightarrow> modelRenderer completion" where
  "addIfcGeometries arg s =
     (case scene s of
        None \<Rightarrow> Normal s
      | Some children \<Rightarrow>
          (case arg of
             NotAnArray \<Rightarrow> Normal s
           | JsArray allGeometries \<Rightarrow> forEachGeometry allGeometries s))"

subsection \<open>Wireframe overlays\<close>

text \<open>
  \<^verbatim>\<open>scene.remove(object)\<close> removes the object itself (the first child with its
  identity) from the children.
\<close>

fun removeObject :: "object3d \<Rightarrow> object3d list \<Rightarrow> object3d list" where
  "removeObject w [] = []"
| "removeObject w (c # cs) = (if oid c = oid w then cs else c # removeObject w cs)"

text \<open>
  \<^verbatim>\<open>clearWireframes\<close>: \<^verbatim>\<open>this.scene.remove\<close> is outside every \<^verbatim>\<open>try\<close>, so without a
  scene the first overlay throws. Disposing a geometry and a material is recorded by the
  overlay's identity in \<open>disposed\<close>.
\<close>

definition clearWireframes :: "modelRenderer \<Rightarrow> modelRenderer completion" where
  "clearWireframes s =
     (case wireframeObjects s of
        [] \<Rightarrow> Normal (s\<lparr>wireframeObjects := []\<rparr>)
      | w # ws \<Rightarrow>
          (case scene s of
             None \<Rightarrow> Abrupt TypeError s
           | Some children \<Rightarrow>
               Normal (s\<lparr>scene := Some (foldl (\<lambda>cs wireframe. removeObject wireframe cs)
                                         children (wireframeObjects s)),
                         disposed := disposed s @ map oid (wireframeObjects s),
                         wireframeObjects := []\<rparr>)))"

definition toggleWireframe :: "bool \<Rightarrow> modelRenderer \<Rightarrow> modelRenderer completion" where
  "toggleWireframe show_arg s =
     (let s1 = s\<lparr>showWireframe := show_arg\<rparr>
      in if show_arg
         then Normal (foldl (\<lambda>st mesh. createWireframe mesh st) s1 (ifcObjects s1))
         else clearWireframes s1)"

subsection \<open>Batch ingestion\<close>

lemma materialFor_fails_iff:
  "isl (materialFor d) \<longleftrightarrow>
     (colorHEX d = None \<or> colorHEX d = Some []) \<and> ifcType d = None"
  by (auto simp: materialFor_def Let_def split: option.splits)

lemma createWireframe_keeps:
  "scene s = Some ch \<Longrightarrow>
   ifcObjects (createWireframe m s) = ifcObjects s
   \<and> (\<exists>w. scene (createWireframe m s) = Some (ch @ [w]))"
  by (simp add: createWireframe_def Let_def)

text \<open>One call of \<^verbatim>\<open>addIfcGeometry\<close> on an object, in a renderer that has a scene.\<close>

lemma addIfcGeometry_step:
  assumes "scene s = Some ch"
  shows "if isl (materialFor d)
         then addIfcGeometry (Some d) s = (None, s)
         else (\<exists>mesh ch'. fst (addIfcGeometry (Some d) s) = Some mesh
                \<and> ifcObjects (snd (addIfcGeometry (Some d) s)) = ifcObjects s @ [mesh]
                \<and> scene (snd (addIfcGeometry (Some d) s)) = Some ch'
                \<and> mesh \<in> set ch' \<and> set ch \<subseteq> set ch'
                \<and> ud_globalId mesh = globalId d
                \<and> obj_geometry mesh = BufferGeometry (convertIFCToThreeJS (vertices d)) (faces d))"
proof (cases "materialFor d")
  case (Inl e)
  then show ?thesis using assms by (simp add: addIfcGeometry_def Let_def)
next
  case (Inr m)
  then show ?thesis using assms
    by (auto simp: addIfcGeometry_def Let_def createWireframe_def)
qed

lemma forEachGeometry_objects:
  assumes "scene s = Some ch"
  shows "\<exists>s' new ch'. forEachGeometry (map Some ds) s = Normal s'
           \<and> ifcObjects s' = ifcObjects s @ new
           \<and> scene s' = Some ch' \<and> set ch \<subseteq> set ch' \<and> set new \<subseteq> set ch'
           \<and> map ud_globalId new = map globalId (filter (\<lambda>d. \<not> isl (materialFor d)) ds)
           \<and> map obj_geometry new =
               map (\<lambda>d. BufferGeometry (convertIFCToThreeJS (vertices d)) (faces d))
                 (filter (\<lambda>d. \<not> isl (materialFor d)) ds)"
  using assms
proof (induction ds arbitrary: s ch)
  case Nil
  then show ?case by simp
next
  case (Cons d ds)
  let ?s1 = "snd (addIfcGeometry (Some d) s)"
  show ?case
  proof (cases "isl (materialFor d)")
    case True
    then have "?s1 = s" using addIfcGeometry_step [OF Cons.prems, of d] by simp
    then show ?thesis using Cons.IH [OF Cons.prems] True by simp
  next
    case False
    then obtain mesh ch1 where m: "ifcObjects ?s1 = ifcObjects s @ [mesh]"
      "scene ?s1 = Some ch1" "mesh \<in> set ch1" "set ch \<subseteq> set ch1"
      "ud_globalId mesh = globalId d"
      "obj_geometry mesh = BufferGeometry (convertIFCToThreeJS (vertices d)) (faces d)"
      using addIfcGeometry_step [OF Cons.prems, of d] by auto
    from Cons.IH [OF m(2)] obtain s' new ch' where
      r: "forEachGeometry (map Some ds) ?s1 = Normal s'"
      "ifcObjects s' = ifcObjects ?s1 @ new" "scene s' = Some ch'" "set ch1 \<subseteq> set ch'"
      "set new \<subseteq> set ch'"
      "map ud_globalId new = map globalId (filter (\<lambda>d. \<not> isl (materialFor d)) ds)"
      "map obj_geometry new =
               map (\<lambda>d. BufferGeometry (convertIFCToThreeJS (vertices d)) (faces d))
                 (filter (\<lambda>d. \<not> isl (materialFor d)) ds)"
      by blast
    have "forEachGeometry (map Some (d # ds)) s = Normal s'" using r(1) by simp
    moreover have "ifcObjects s' = ifcObjects s @ (mesh # new)" using r(2) m(1) by simp
    moreover have "set ch \<subseteq> set ch'" using m(4) r(4) by blast
    moreover have "set (mesh # new) \<subseteq> set ch'" using m(3) r(4,5) by auto
    moreover have "map ud_globalId (mesh # new) =
        map globalId (filter (\<lambda>d. \<not> isl (materialFor d)) (d # ds))"
      using False m(5) r(6) by simp
    moreover have "map obj_geometry (mesh # new) =
        map (\<lambda>d. BufferGeometry (convertIFCToThreeJS (vertices d)) (faces d))
          (filter (\<lambda>d. \<not> isl (materialFor d)) (d # ds))"
      using False m(6) r(7) by simp
    ultimately show ?thesis using r(3) by blast
  qed
qed

text \<open>
  C6 (as the code has it). A batch whose elements are all objects is ingested into a
  renderer that has a scene. The call ends normally; every element is handed to
  \<^verbatim>\<open>addIfcGeometry\<close> in order; an element whose ingestion throws is skipped and adds no
  Drawable, and the elements after it are still ingested: the Drawables added are, in
  order, one for each element whose ingestion does not throw, each in the scene, tagged
  with its element's \<^verbatim>\<open>globalId\<close> and holding its converted vertices and its faces.
  Ingestion throws exactly for a descriptor with neither a non-empty \<^verbatim>\<open>colorHEX\<close> nor
  an \<^verbatim>\<open>ifcType\<close>; the vertex and index arrays are not examined.
\<close>

theorem batch_ingestion:
  assumes "scene s = Some ch"
  shows "(\<exists>s' new ch'. addIfcGeometries (JsArray (map Some ds)) s = Normal s'
           \<and> ifcObjects s' = ifcObjects s @ new
           \<and> scene s' = Some ch' \<and> set ch \<subseteq> set ch' \<and> set new \<subseteq> set ch'
           \<and> map ud_globalId new = map globalId (filter (\<lambda>d. \<not> isl (materialFor d)) ds)
           \<and> map obj_geometry new =
               map (\<lambda>d. BufferGeometry (convertIFCToThreeJS (vertices d)) (faces d))
                 (filter (\<lambda>d. \<not> isl (materialFor d)) ds))
       \<and> (\<forall>d. isl (materialFor d) \<longleftrightarrow>
                (colorHEX d = None \<or> colorHEX d = Some []) \<and> ifcType d = None)"
  using forEachGeometry_objects [OF assms, of ds] assms
  by (simp add: addIfcGeometries_def materialFor_fails_iff)

definition emptyDescriptor :: descriptor where
  "emptyDescriptor =
     \<lparr>globalId = Some ''E'', ifcType = Some ''IfcWall'', vertices = [], faces = [],
      colorHEX = None, transparency = None\<rparr>"

definition untypedDescriptor :: descriptor where
  "untypedDescriptor =
     \<lparr>globalId = Some ''U'', ifcType = None,
      vertices = [Num 0, Num 0, Num 0, Num 1, Num 0, Num 0, Num 0, Num 1, Num 0],
      faces = [0, 1, 2], colorHEX = None, transparency = None\<rparr>"

theorem batch_ingestion_witness:
  "scene emptyRenderer = Some []
   \<and> map ud_globalId (ifcObjects (stateOf (addIfcGeometries
         (JsArray (map Some [redBox, untypedDescriptor, plainWindow])) emptyRenderer)))
       = [Some ''A'', Some ''W'']"
proof -
  have sc: "scene emptyRenderer = Some []" by (simp add: emptyRenderer_def)
  have f: "filter (\<lambda>d. \<not> isl (materialFor d)) [redBox, untypedDescriptor, plainWindow]
         = [redBox, plainWindow]"
    by (simp add: materialFor_fails_iff redBox_def untypedDescriptor_def plainWindow_def)
  have e: "ifcObjects emptyRenderer = []" by (simp add: emptyRenderer_def)
  show ?thesis
    using batch_ingestion [OF sc, of "[redBox, untypedDescriptor, plainWindow]"] sc f e
    by (auto simp: redBox_def plainWindow_def)
qed

text \<open>
  A descriptor with empty vertex and index arrays is not skipped: a Drawable is added
  for it.
\<close>

theorem empty_descriptor_ingested:
  "vertices emptyDescriptor = [] \<and> faces emptyDescriptor = []
   \<and> map ud_globalId (ifcObjects (stateOf (addIfcGeometries
         (JsArray [Some emptyDescriptor]) emptyRenderer))) = [Some ''E'']"
  by (simp add: emptyDescriptor_def emptyRenderer_def addIfcGeometries_def
      addIfcGeometry_def materialFor_def newMaterial_def Let_def)

text \<open>A \<^verbatim>\<open>null\<close> element ends the batch: the elements after it are not ingested.\<close>

lemma null_element_aborts_batch:
  "addIfcGeometries (JsArray [None, Some redBox]) emptyRenderer
     = Abrupt TypeError emptyRenderer"
  by (simp add: addIfcGeometries_def emptyRenderer_def)

subsection \<open>Toggling the overlays\<close>

lemma createWireframe_fold:
  assumes "scene s = Some ch"
  shows "\<exists>new. wireframeObjects (foldl (\<lambda>st mesh. createWireframe mesh st) s ms)
                 = wireframeObjects s @ new
           \<and> scene (foldl (\<lambda>st mesh. createWireframe mesh st) s ms) = Some (ch @ new)
           \<and> map ud_parentMesh new = map (\<lambda>m. Some (oid m)) ms
           \<and> ifcObjects (foldl (\<lambda>st mesh. createWireframe mesh st) s ms) = ifcObjects s
           \<and> showWireframe (foldl (\<lambda>st mesh. createWireframe mesh st) s ms) = showWireframe s"
  using assms
proof (induction ms arbitrary: s ch)
  case Nil
  then show ?case by simp
next
  case (Cons m ms)
  let ?s1 = "createWireframe m s"
  obtain w where w: "scene ?s1 = Some (ch @ [w])" "wireframeObjects ?s1 = wireframeObjects s @ [w]"
    "ud_parentMesh w = Some (oid m)" "ifcObjects ?s1 = ifcObjects s"
    "showWireframe ?s1 = showWireframe s"
    using Cons.prems by (simp add: createWireframe_def Let_def)
  from Cons.IH [OF w(1)] obtain new where
    n: "wireframeObjects (foldl (\<lambda>st mesh. createWireframe mesh st) ?s1 ms)
          = wireframeObjects ?s1 @ new"
      "scene (foldl (\<lambda>st mesh. createWireframe mesh st) ?s1 ms) = Some ((ch @ [w]) @ new)"
      "map ud_parentMesh new = map (\<lambda>m. Some (oid m)) ms"
      "ifcObjects (foldl (\<lambda>st mesh. createWireframe mesh st) ?s1 ms) = ifcObjects ?s1"
      "showWireframe (foldl (\<lambda>st mesh. createWireframe mesh st) ?s1 ms) = showWireframe ?s1"
    by blast
  have "wireframeObjects (foldl (\<lambda>st mesh. createWireframe mesh st) s (m # ms))
          = wireframeObjects s @ (w # new)"
    using n(1) w(2) by simp
  moreover have "scene (foldl (\<lambda>st mesh. createWireframe mesh st) s (m # ms))
          = Some (ch @ (w # new))"
    using n(2) by simp
  moreover have "map ud_parentMesh (w # new) = map (\<lambda>m. Some (oid m)) (m # ms)"
    using n(3) w(3) by simp
  moreover have "ifcObjects (foldl (\<lambda>st mesh. createWireframe mesh st) s (m # ms)) = ifcObjects s"
    using n(4) w(4) by simp
  moreover have "showWireframe (foldl (\<lambda>st mesh. createWireframe mesh st) s (m # ms))
          = showWireframe s"
    using n(5) w(5) by simp
  ultimately show ?case by blast
qed

lemma removeObject_filter:
  "distinct (map oid cs) \<Longrightarrow> removeObject w cs = filter (\<lambda>c. oid c \<noteq> oid w) cs"
proof (induction cs)
  case Nil
  then show ?case by simp
next
  case (Cons c cs)
  show ?case
  proof (cases "oid c = oid w")
    case True
    then have "oid w \<notin> oid ` set cs" using Cons.prems by simp
    then have "\<forall>x \<in> set cs. oid x \<noteq> oid w" by (metis imageI)
    then have "filter (\<lambda>c. oid c \<noteq> oid w) cs = cs" by (simp add: filter_id_conv)
    then show ?thesis using True by simp
  next
    case False
    then show ?thesis using Cons by simp
  qed
qed

lemma removeObjects_filter:
  "distinct (map oid cs) \<Longrightarrow>
   foldl (\<lambda>cs wireframe. removeObject wireframe cs) cs ws
     = filter (\<lambda>c. oid c \<notin> oid ` set ws) cs"
proof (induction ws arbitrary: cs)
  case Nil
  then show ?case by simp
next
  case (Cons w ws)
  have d: "distinct (map oid (filter (\<lambda>c. oid c \<noteq> oid w) cs))"
    using Cons.prems by (simp add: distinct_map_filter)
  have "foldl (\<lambda>cs wireframe. removeObject wireframe cs) cs (w # ws)
        = foldl (\<lambda>cs wireframe. removeObject wireframe cs) (filter (\<lambda>c. oid c \<noteq> oid w) cs) ws"
    using Cons.prems by (simp add: removeObject_filter)
  also have "\<dots> = filter (\<lambda>c. oid c \<notin> oid ` set ws) (filter (\<lambda>c. oid c \<noteq> oid w) cs)"
    using Cons.IH [OF d] .
  also have "\<dots> = filter (\<lambda>c. oid c \<notin> oid ` set (w # ws)) cs"
    by (auto intro: filter_cong)
  finally show ?case .
qed

lemma toggleWireframe_off:
  assumes "scene s = Some ch" and "distinct (map oid ch)"
  shows "\<exists>s0. toggleWireframe False s = Normal s0 \<and> wireframeObjects s0 = []
           \<and> scene s0 = Some (filter (\<lambda>c. oid c \<notin> oid ` set (wireframeObjects s)) ch)
           \<and> disposed s0 = disposed s @ map oid (wireframeObjects s)
           \<and> ifcObjects s0 = ifcObjects s
           \<and> toggleWireframe False s0 = Normal s0"
proof (cases "wireframeObjects s")
  case Nil
  then show ?thesis using assms
    by (simp add: toggleWireframe_def clearWireframes_def Let_def)
next
  case (Cons w ws)
  then show ?thesis using assms removeObjects_filter [OF assms(2), of "wireframeObjects s"]
    by (simp add: toggleWireframe_def clearWireframes_def Let_def)
qed

text \<open>
  C5 (as the code has it), for a renderer with a scene in which every object is a child
  once. Enabling builds one new overlay for every Drawable of \<^verbatim>\<open>ifcObjects\<close>, in order,
  whether or not the Drawable already has one, and appends them to the scene and to
  \<^verbatim>\<open>wireframeObjects\<close>. Disabling removes every overlay of \<^verbatim>\<open>wireframeObjects\<close> from the
  scene, disposes it, and empties the list; disabling again changes nothing.
\<close>

theorem toggleWireframe_effect:
  assumes "scene s = Some ch" and "distinct (map oid ch)"
  shows "(\<exists>s1 new. toggleWireframe True s = Normal s1
            \<and> wireframeObjects s1 = wireframeObjects s @ new
            \<and> scene s1 = Some (ch @ new)
            \<and> map ud_parentMesh new = map (\<lambda>m. Some (oid m)) (ifcObjects s)
            \<and> ifcObjects s1 = ifcObjects s \<and> showWireframe s1)
       \<and> (\<exists>s0. toggleWireframe False s = Normal s0 \<and> wireframeObjects s0 = []
            \<and> scene s0 = Some (filter (\<lambda>c. oid c \<notin> oid ` set (wireframeObjects s)) ch)
            \<and> disposed s0 = disposed s @ map oid (wireframeObjects s)
            \<and> ifcObjects s0 = ifcObjects s
            \<and> toggleWireframe False s0 = Normal s0)"
proof
  have sc: "scene (s\<lparr>showWireframe := True\<rparr>) = Some ch" using assms(1) by simp
  from createWireframe_fold [OF sc, of "ifcObjects s"]
  show "\<exists>s1 new. toggleWireframe True s = Normal s1
            \<and> wireframeObjects s1 = wireframeObjects s @ new
            \<and> scene s1 = Some (ch @ new)
            \<and> map ud_parentMesh new = map (\<lambda>m. Some (oid m)) (ifcObjects s)
            \<and> ifcObjects s1 = ifcObjects s \<and> showWireframe s1"
    by (auto simp: toggleWireframe_def Let_def)
next
  show "\<exists>s0. toggleWireframe False s = Normal s0 \<and> wireframeObjects s0 = []
            \<and> scene s0 = Some (filter (\<lambda>c. oid c \<notin> oid ` set (wireframeObjects s)) ch)
            \<and> disposed s0 = disposed s @ map oid (wireframeObjects s)
            \<and> ifcObjects s0 = ifcObjects s
            \<and> toggleWireframe False s0 = Normal s0"
    using toggleWireframe_off [OF assms] .
qed

text \<open>A renderer holding one Drawable and no overlay, as ingestion leaves it.\<close>

definition boxMesh :: object3d where
  "boxMesh =
     \<lparr>oid = 1, isMesh = True, ud_globalId = Some ''A'', ud_ifcType = Some ''IfcWall'',
      ud_parentMesh = None,
      obj_geometry = BufferGeometry (convertIFCToThreeJS (vertices redBox)) (faces redBox),
      obj_material = \<lparr>color = ColorStyle ''#FF0000'', transparent = True, opacity = 3 / 4\<rparr>,
      obj_scale = 0.001\<rparr>"

definition oneDrawable :: modelRenderer where
  "oneDrawable =
     \<lparr>scene = Some [boxMesh], ifcObjects = [boxMesh], wireframeObjects = [],
      showWireframe = False, nextId = 2, disposed = []\<rparr>"

lemma oneDrawable_ingested:
  "addIfcGeometry (Some redBox) emptyRenderer = (Some boxMesh, oneDrawable)"
  by (simp add: oneDrawable_def boxMesh_def emptyRenderer_def redBox_def addIfcGeometry_def
      materialFor_def newMaterial_def Let_def)

theorem toggleWireframe_effect_witness:
  "scene oneDrawable = Some [boxMesh] \<and> distinct (map oid [boxMesh])
   \<and> (\<exists>s1. toggleWireframe True oneDrawable = Normal s1
         \<and> map ud_parentMesh (wireframeObjects s1) = [Some 1])
   \<and> (\<exists>s0. toggleWireframe False oneDrawable = Normal s0 \<and> wireframeObjects s0 = []
         \<and> toggleWireframe False s0 = Normal s0)"
proof -
  have sc: "scene oneDrawable = Some [boxMesh]" by (simp add: oneDrawable_def)
  have d: "distinct (map oid [boxMesh])" by simp
  have w: "wireframeObjects oneDrawable = []" and i: "ifcObjects oneDrawable = [boxMesh]"
    by (simp_all add: oneDrawable_def)
  have o: "oid boxMesh = 1" by (simp add: boxMesh_def)
  from toggleWireframe_effect [OF sc d] w i o sc show ?thesis by auto
qed

text \<open>
  Enabling twice in a row does not leave the overlays of enabling once: the Drawable has
  two overlays.
\<close>

theorem toggleWireframe_twice:
  "map ud_parentMesh (wireframeObjects (stateOf (toggleWireframe True oneDrawable))) = [Some 1]
   \<and> map ud_parentMesh (wireframeObjects (stateOf
        (andThen (toggleWireframe True oneDrawable) (toggleWireframe True)))) = [Some 1, Some 1]"
  by (simp add: oneDrawable_def boxMesh_def toggleWireframe_def createWireframe_def Let_def)

section \<open>Camera and orbit controls (SimpleOrbitControls)\<close>

subsection \<open>Vectors and spherical coordinates of three.js\<close>

text \<open>
  Numbers are real numbers here: the arithmetic of the source is exact in this model.
  The functions of this subsection are those of the three.js library
  (\<^verbatim>\<open>Vector3\<close>, \<^verbatim>\<open>Spherical\<close>, \<^verbatim>\<open>MathUtils.clamp\<close>) and \<^verbatim>\<open>Math.atan2\<close>.
\<close>

record vector3 =
  vx :: real
  vy :: real
  vz :: real

definition v_add :: "vector3 \<Rightarrow> vector3 \<Rightarrow> vector3" where
  "v_add a b = \<lparr>vx = vx a + vx b, vy = vy a + vy b, vz = vz a + vz b\<rparr>"

definition v_sub :: "vector3 \<Rightarrow> vector3 \<Rightarrow> vector3" where
  "v_sub a b = \<lparr>vx = vx a - vx b, vy = vy a - vy b, vz = vz a - vz b\<rparr>"

definition multiplyScalar :: "vector3 \<Rightarrow> real \<Rightarrow> vector3" where
  "multiplyScalar a k = \<lparr>vx = vx a * k, vy = vy a * k, vz = vz a * k\<rparr>"

definition v_length :: "vector3 \<Rightarrow> real" where
  "v_length a = sqrt (vx a * vx a + vy a * vy a + vz a * vz a)"

definition distanceTo :: "vector3 \<Rightarrow> vector3 \<Rightarrow> real" where
  "distanceTo a b = v_length (v_sub a b)"

text \<open>\<^verbatim>\<open>normalize\<close> divides by \<^verbatim>\<open>length() || 1\<close>.\<close>

definition normalize :: "vector3 \<Rightarrow> vector3" where
  "normalize a =
     (let l = (if v_length a = 0 then 1 else v_length a)
      in \<lparr>vx = vx a / l, vy = vy a / l, vz = vz a / l\<rparr>)"

definition clamp :: "real \<Rightarrow> real \<Rightarrow> real \<Rightarrow> real" where
  "clamp v lo hi = max lo (min hi v)"

definition atan2 :: "real \<Rightarrow> real \<Rightarrow> real" where
  "atan2 y x =
     (if 0 < x then arctan (y / x)
      else if x < 0 then (if 0 \<le> y then arctan (y / x) + pi else arctan (y / x) - pi)
      else if 0 < y then pi / 2
      else if y < 0 then - (pi / 2)
      else 0)"

record spherical =
  radius :: real
  phi :: real
  theta :: real

definition setFromVector3 :: "vector3 \<Rightarrow> spherical" where
  "setFromVector3 v =
     (let r = sqrt (vx v * vx v + vy v * vy v + vz v * vz v)
      in if r = 0 then \<lparr>radius = r, phi = 0, theta = 0\<rparr>
         else \<lparr>radius = r, phi = arccos (clamp (vy v / r) (- 1) 1), theta = atan2 (vx v) (vz v)\<rparr>)"

definition setFromSpherical :: "spherical \<Rightarrow> vector3" where
  "setFromSpherical s =
     (let sinPhiRadius = sin (phi s) * radius s
      in \<lparr>vx = sinPhiRadius * sin (theta s),
          vy = cos (phi s) * radius s,
          vz = sinPhiRadius * cos (theta s)\<rparr>)"

subsection \<open>The camera and the controls\<close>

text \<open>
  The camera object is shared by the viewer and its controls; the methods of the controls
  take it and return it. The orientation that \<^verbatim>\<open>camera.lookAt\<close> computes is recorded
  as the point the camera was aimed at.
\<close>

record camera =
  isOrthographicCamera :: bool
  cam_left :: real
  cam_right :: real
  cam_top :: real
  cam_bottom :: real
  position :: vector3
  lookAt :: vector3

record controls =
  target :: vector3
  leftButton :: bool
  rightButton :: bool
  middleButton :: bool
  enableRotate :: bool

definition minPhi :: real where
  "minPhi = 0.01"

definition maxPhi :: real where
  "maxPhi = pi - 0.01"

text \<open>\<^verbatim>\<open>rotate(deltaX, deltaY)\<close> (named \<open>rotate_ctl\<close> here); \<open>modelCenter\<close> is what \<^verbatim>\<open>viewer.getModelCenter()\<close> returns.\<close>

definition rotate_ctl ::
  "vector3 \<Rightarrow> real \<Rightarrow> real \<Rightarrow> camera \<times> controls \<Rightarrow> camera \<times> controls" where
  "rotate_ctl modelCenter deltaX deltaY cc =
     (let spherical0 = setFromVector3 (v_sub (position (fst cc)) modelCenter);
          spherical1 = spherical0\<lparr>theta := theta spherical0 - deltaX * 0.01\<rparr>;
          spherical2 = spherical1\<lparr>phi := phi spherical1 - deltaY * 0.01\<rparr>;
          spherical3 =
            (if phi spherical2 < minPhi then spherical2\<lparr>phi := minPhi\<rparr>
             else if phi spherical2 > maxPhi then spherical2\<lparr>phi := maxPhi\<rparr>
             else spherical2);
          newPosition = v_add (setFromSpherical spherical3) modelCenter
      in ((fst cc)\<lparr>position := newPosition, lookAt := modelCenter\<rparr>,
          (snd cc)\<lparr>target := modelCenter\<rparr>))"

text \<open>
  The rotation block of \<^verbatim>\<open>onMouseMove\<close> (lines 96 to 125), for the pointer deltas
  \<open>deltaX\<close> and \<open>deltaY\<close> the handler has computed.
\<close>

definition onMouseMove_rotate ::
  "vector3 \<Rightarrow> real \<Rightarrow> real \<Rightarrow> camera \<times> controls \<Rightarrow> camera \<times> controls" where
  "onMouseMove_rotate modelCenter deltaX deltaY cc =
     (if leftButton (snd cc) \<and> enableRotate (snd cc) then
        (let spherical0 = setFromVector3 (v_sub (position (fst cc)) modelCenter);
             allowRotation =
               (if phi spherical0 \<le> minPhi then deltaY < 0
                else if phi spherical0 \<ge> maxPhi then deltaY > 0
                else True)
         in if allowRotation then rotate_ctl modelCenter deltaX deltaY cc else cc)
      else cc)"

text \<open>The origin, for the examples.\<close>

definition origin :: vector3 where
  "origin = \<lparr>vx = 0, vy = 0, vz = 0\<rparr>"

text \<open>A camera level with the model centre, and controls with the primary button held.\<close>

definition levelCamera :: camera where
  "levelCamera =
     \<lparr>isOrthographicCamera = True, cam_left = - 20, cam_right = 20, cam_top = 10,
      cam_bottom = - 10, position = \<lparr>vx = 0, vy = 0, vz = 1\<rparr>, lookAt = origin\<rparr>"

definition draggingControls :: controls where
  "draggingControls =
     \<lparr>target = origin, leftButton = True, rightButton = False, middleButton = False,
      enableRotate = True\<rparr>"

subsection \<open>Rotation keeps the distance to the pivot\<close>

lemma minPhi_le_maxPhi: "minPhi \<le> maxPhi"
  using pi_ge_two by (simp add: minPhi_def maxPhi_def)

lemma v_sub_v_add [simp]: "v_sub (v_add a b) b = a"
  by (simp add: v_sub_def v_add_def)

lemma unit_product_squares:
  fixes a b c d r :: real
  assumes "a * a + b * b = 1" and "c * c + d * d = 1"
  shows "(a * r * c) * (a * r * c) + (b * r) * (b * r) + (a * r * d) * (a * r * d) = r * r"
proof -
  have "(a * r * c) * (a * r * c) + (b * r) * (b * r) + (a * r * d) * (a * r * d)
        = (r * r) * ((a * a) * (c * c + d * d) + b * b)"
    by (simp add: algebra_simps)
  also have "\<dots> = r * r" using assms by simp
  finally show ?thesis .
qed

lemma spherical_norm:
  "sqrt ((sin p * r * sin t) * (sin p * r * sin t) + (cos p * r) * (cos p * r)
         + (sin p * r * cos t) * (sin p * r * cos t)) = \<bar>r\<bar>"
proof -
  have st: "sin t * sin t + cos t * cos t = 1" and sp: "sin p * sin p + cos p * cos p = 1"
    using sin_cos_squared_add [of t] sin_cos_squared_add [of p]
    by (simp_all add: power2_eq_square)
  show ?thesis
    by (simp only: unit_product_squares [OF sp st] real_sqrt_abs2)
qed

lemma radius_nonneg: "0 \<le> radius (setFromVector3 v)"
  by (simp add: setFromVector3_def Let_def)

lemma radius_setFromSpherical:
  "radius (setFromVector3 (setFromSpherical s)) = \<bar>radius s\<bar>"
  using spherical_norm [of "phi s" "radius s" "theta s"]
  by (simp add: setFromVector3_def setFromSpherical_def Let_def)

text \<open>The spherical coordinates \<^verbatim>\<open>rotate\<close> converts back to a position.\<close>

definition rotated :: "vector3 \<Rightarrow> real \<Rightarrow> real \<Rightarrow> camera \<Rightarrow> spherical" where
  "rotated modelCenter deltaX deltaY cam =
     (let s = setFromVector3 (v_sub (position cam) modelCenter)
      in \<lparr>radius = radius s,
          phi = max minPhi (min maxPhi (phi s - deltaY * 0.01)),
          theta = theta s - deltaX * 0.01\<rparr>)"

lemma rotate_position:
  "position (fst (rotate_ctl c dx dy cc)) = v_add (setFromSpherical (rotated c dx dy (fst cc))) c"
  using minPhi_le_maxPhi
  by (simp add: rotate_ctl_def rotated_def setFromSpherical_def Let_def max_def min_def)

subsection \<open>The polar angle stays clamped\<close>

text \<open>The polar angle the handler computes: that of the camera about the model centre.\<close>

definition polarAngle :: "vector3 \<Rightarrow> camera \<times> controls \<Rightarrow> real" where
  "polarAngle modelCenter cc = phi (setFromVector3 (v_sub (position (fst cc)) modelCenter))"

text \<open>A sequence of pointer moves, each given by its deltas.\<close>

definition rotateMoves ::
  "vector3 \<Rightarrow> (real \<times> real) list \<Rightarrow> camera \<times> controls \<Rightarrow> camera \<times> controls" where
  "rotateMoves modelCenter moves cc =
     foldl (\<lambda>st m. onMouseMove_rotate modelCenter (fst m) (snd m) st) cc moves"

lemma radius_pos_iff:
  "0 < radius (setFromVector3 (v_sub p c)) \<longleftrightarrow> p \<noteq> c"
proof -
  have "vx p * vx p + vy p * vy p + vz p * vz p
          - 2 * (vx p * vx c + vy p * vy c + vz p * vz c)
          + (vx c * vx c + vy c * vy c + vz c * vz c)
        = (vx p - vx c) * (vx p - vx c) + (vy p - vy c) * (vy p - vy c)
          + (vz p - vz c) * (vz p - vz c)"
    by (simp add: algebra_simps)
  have z: "(vx p - vx c) * (vx p - vx c) + (vy p - vy c) * (vy p - vy c)
          + (vz p - vz c) * (vz p - vz c) = 0
        \<longleftrightarrow> vx p = vx c \<and> vy p = vy c \<and> vz p = vz c"
    using sum_squares_eq_zero_iff [of "vx p - vx c" "vy p - vy c"]
    by (smt (verit) mult_eq_0_iff zero_le_square add_nonneg_eq_0_iff)
  have nn: "0 \<le> (vx p - vx c) * (vx p - vx c) + (vy p - vy c) * (vy p - vy c)
          + (vz p - vz c) * (vz p - vz c)"
    by (simp add: add_nonneg_nonneg)
  have "p = c \<longleftrightarrow> vx p = vx c \<and> vy p = vy c \<and> vz p = vz c"
    by (cases p, cases c) simp
  then show ?thesis using z nn
    by (simp add: setFromVector3_def v_sub_def Let_def less_le)
qed

lemma polarAngle_range:
  "minPhi \<le> x \<Longrightarrow> x \<le> maxPhi \<Longrightarrow> 0 \<le> x \<and> x \<le> pi"
  by (simp add: minPhi_def maxPhi_def)

text \<open>The polar angle of a position built from spherical coordinates.\<close>

lemma phi_setFromSpherical:
  assumes "0 < radius s" and "0 \<le> phi s" and "phi s \<le> pi"
  shows "phi (setFromVector3 (setFromSpherical s)) = phi s"
proof -
  have r: "radius (setFromVector3 (setFromSpherical s)) = radius s"
    using assms(1) by (simp add: radius_setFromSpherical)
  then have nz: "sqrt (vx (setFromSpherical s) * vx (setFromSpherical s)
                + vy (setFromSpherical s) * vy (setFromSpherical s)
                + vz (setFromSpherical s) * vz (setFromSpherical s)) = radius s"
    by (simp add: setFromVector3_def Let_def split: if_splits)
  have "phi (setFromVector3 (setFromSpherical s))
        = arccos (clamp (vy (setFromSpherical s) / radius s) (- 1) 1)"
    using assms(1) nz by (simp add: setFromVector3_def Let_def)
  also have "vy (setFromSpherical s) / radius s = cos (phi s)"
    using assms(1) by (simp add: setFromSpherical_def Let_def)
  also have "clamp (cos (phi s)) (- 1) 1 = cos (phi s)"
    by (simp add: clamp_def min_absorb2 max_absorb2)
  also have "arccos (cos (phi s)) = phi s"
    using assms(2,3) by (rule arccos_cos)
  finally show ?thesis .
qed

lemma polarAngle_rotate:
  assumes "position (fst cc) \<noteq> c"
  shows "polarAngle c (rotate_ctl c dx dy cc)
           = max minPhi (min maxPhi (polarAngle c cc - dy * 0.01))"
proof -
  let ?s = "rotated c dx dy (fst cc)"
  have r: "0 < radius ?s" using assms by (simp add: rotated_def Let_def radius_pos_iff)
  have "minPhi \<le> phi ?s" "phi ?s \<le> maxPhi"
    using minPhi_le_maxPhi by (simp_all add: rotated_def Let_def)
  then have "0 \<le> phi ?s" "phi ?s \<le> pi" using polarAngle_range by blast+
  from phi_setFromSpherical [OF r this]
  show ?thesis
    by (simp add: polarAngle_def rotate_position) (simp add: rotated_def Let_def)
qed

lemma rotate_keeps_off_centre:
  assumes "position (fst cc) \<noteq> c"
  shows "position (fst (rotate_ctl c dx dy cc)) \<noteq> c"
proof -
  have "radius (setFromVector3 (v_sub (position (fst (rotate_ctl c dx dy cc))) c))
        = \<bar>radius (rotated c dx dy (fst cc))\<bar>"
    by (simp add: rotate_position radius_setFromSpherical)
  also have "\<dots> = radius (setFromVector3 (v_sub (position (fst cc)) c))"
    using radius_nonneg [of "v_sub (position (fst cc)) c"] by (simp add: rotated_def Let_def)
  finally show ?thesis using assms radius_pos_iff by metis
qed

lemma rotate_keeps_buttons:
  "leftButton (snd (rotate_ctl c dx dy cc)) = leftButton (snd cc)
   \<and> enableRotate (snd (rotate_ctl c dx dy cc)) = enableRotate (snd cc)"
  by (simp add: rotate_ctl_def Let_def)

text \<open>\<^verbatim>\<open>Math.atan2\<close> recovers the angle of a point of the plane, up to full turns.\<close>

lemma sqrt_one_plus_tan:
  assumes "cos t \<noteq> 0"
  shows "sqrt (1 + (tan t)\<^sup>2) = 1 / \<bar>cos t\<bar>"
proof -
  have "1 + (tan t)\<^sup>2 = ((sin t)\<^sup>2 + (cos t)\<^sup>2) / (cos t)\<^sup>2"
    using assms by (simp add: tan_def power_divide field_simps)
  also have "\<dots> = (1 / cos t)\<^sup>2" by (simp add: power_divide)
  finally have "sqrt (1 + (tan t)\<^sup>2) = \<bar>1 / cos t\<bar>" by simp
  then show ?thesis by simp
qed

lemma sin_cos_arctan_tan:
  assumes "cos t \<noteq> 0"
  shows "sin (arctan (tan t)) = sin t * \<bar>cos t\<bar> / cos t"
    and "cos (arctan (tan t)) = \<bar>cos t\<bar>"
proof -
  have "sin (arctan (tan t)) = tan t * \<bar>cos t\<bar>"
    using assms by (simp add: sin_arctan sqrt_one_plus_tan)
  then show "sin (arctan (tan t)) = sin t * \<bar>cos t\<bar> / cos t" by (simp add: tan_def)
  show "cos (arctan (tan t)) = \<bar>cos t\<bar>"
    using assms by (simp add: cos_arctan sqrt_one_plus_tan)
qed

lemma atan2_polar:
  assumes "0 < s"
  shows "sin (atan2 (s * sin t) (s * cos t)) = sin t
       \<and> cos (atan2 (s * sin t) (s * cos t)) = cos t"
proof -
  have q: "sin t / cos t = tan t" by (simp add: tan_def)
  consider "0 < cos t" | "cos t < 0" | "cos t = 0" by linarith
  then show ?thesis
  proof cases
    case 1
    then have "atan2 (s * sin t) (s * cos t) = arctan (tan t)"
      using assms by (simp add: atan2_def q)
    then show ?thesis using 1 sin_cos_arctan_tan [of t] by simp
  next
    case 2
    then have x: "s * cos t < 0" using assms by (simp add: mult_pos_neg)
    have nz: "cos t \<noteq> 0" using 2 by simp
    have "atan2 (s * sin t) (s * cos t) = arctan (tan t) + pi
        \<or> atan2 (s * sin t) (s * cos t) = arctan (tan t) - pi"
      using x by (auto simp: atan2_def q)
    then show ?thesis
    proof
      assume "atan2 (s * sin t) (s * cos t) = arctan (tan t) + pi"
      then show ?thesis using 2 sin_cos_arctan_tan [OF nz] by simp
    next
      assume "atan2 (s * sin t) (s * cos t) = arctan (tan t) - pi"
      then show ?thesis using 2 sin_cos_arctan_tan [OF nz] by (simp add: sin_diff cos_diff)
    qed
  next
    case 3
    then have "(sin t)\<^sup>2 = 1" using sin_cos_squared_add [of t] by simp
    then have "sin t = 1 \<or> sin t = - 1" by (simp add: power2_eq_1_iff)
    then show ?thesis
    proof
      assume "sin t = 1"
      then show ?thesis using 3 assms by (simp add: atan2_def)
    next
      assume "sin t = - 1"
      then show ?thesis using 3 assms by (simp add: atan2_def)
    qed
  qed
qed

lemma theta_setFromSpherical:
  assumes "0 < radius s" and "0 < sin (phi s)"
  shows "sin (theta (setFromVector3 (setFromSpherical s))) = sin (theta s)
       \<and> cos (theta (setFromVector3 (setFromSpherical s))) = cos (theta s)"
proof -
  have "radius (setFromVector3 (setFromSpherical s)) = radius s"
    using assms(1) by (simp add: radius_setFromSpherical)
  then have nz: "sqrt (vx (setFromSpherical s) * vx (setFromSpherical s)
                + vy (setFromSpherical s) * vy (setFromSpherical s)
                + vz (setFromSpherical s) * vz (setFromSpherical s)) \<noteq> 0"
    using assms(1) by (simp add: setFromVector3_def Let_def split: if_splits)
  have "theta (setFromVector3 (setFromSpherical s))
        = atan2 (vx (setFromSpherical s)) (vz (setFromSpherical s))"
    using nz by (simp add: setFromVector3_def Let_def)
  also have "\<dots> = atan2 (sin (phi s) * radius s * sin (theta s))
                      (sin (phi s) * radius s * cos (theta s))"
    by (simp add: setFromSpherical_def Let_def)
  finally show ?thesis
    using atan2_polar [of "sin (phi s) * radius s" "theta s"] assms by simp
qed

text \<open>
  C10. \<^verbatim>\<open>rotate\<close> keeps the distance of the camera to the pivot: the radius of the
  camera's spherical coordinates about the pivot is the same before and after. The new
  position is the point with that radius, the polar angle \<open>phi - deltaY * 0.01\<close>
  clamped to \<open>[minPhi, maxPhi]\<close> and the azimuth \<open>theta - deltaX * 0.01\<close>, seen from the
  pivot; the camera is aimed at the pivot, which becomes the target of the controls.
  For a camera that is not at the pivot, the spherical coordinates read back from the new
  position have that clamped polar angle and, up to full turns, that azimuth: only the
  two angles have changed.
\<close>

theorem rotate_preserves_radius:
  "radius (setFromVector3 (v_sub (position (fst (rotate_ctl c dx dy cc))) c))
     = radius (setFromVector3 (v_sub (position (fst cc)) c))
   \<and> position (fst (rotate_ctl c dx dy cc)) =
       v_add (setFromSpherical
         \<lparr>radius = radius (setFromVector3 (v_sub (position (fst cc)) c)),
          phi = max minPhi (min maxPhi (phi (setFromVector3 (v_sub (position (fst cc)) c)) - dy * 0.01)),
          theta = theta (setFromVector3 (v_sub (position (fst cc)) c)) - dx * 0.01\<rparr>) c
   \<and> lookAt (fst (rotate_ctl c dx dy cc)) = c
   \<and> target (snd (rotate_ctl c dx dy cc)) = c
   \<and> (position (fst cc) \<noteq> c \<longrightarrow>
         phi (setFromVector3 (v_sub (position (fst (rotate_ctl c dx dy cc))) c))
           = max minPhi (min maxPhi (phi (setFromVector3 (v_sub (position (fst cc)) c)) - dy * 0.01))
       \<and> sin (theta (setFromVector3 (v_sub (position (fst (rotate_ctl c dx dy cc))) c)))
           = sin (theta (setFromVector3 (v_sub (position (fst cc)) c)) - dx * 0.01)
       \<and> cos (theta (setFromVector3 (v_sub (position (fst (rotate_ctl c dx dy cc))) c)))
           = cos (theta (setFromVector3 (v_sub (position (fst cc)) c)) - dx * 0.01))"
proof -
  let ?s = "rotated c dx dy (fst cc)"
  have "radius (setFromVector3 (v_sub (position (fst (rotate_ctl c dx dy cc))) c))
        = \<bar>radius ?s\<bar>"
    by (simp add: rotate_position radius_setFromSpherical)
  also have "\<dots> = radius (setFromVector3 (v_sub (position (fst cc)) c))"
    using radius_nonneg [of "v_sub (position (fst cc)) c"] by (simp add: rotated_def Let_def)
  finally have 1: "radius (setFromVector3 (v_sub (position (fst (rotate_ctl c dx dy cc))) c))
     = radius (setFromVector3 (v_sub (position (fst cc)) c))" .
  have 2: "position (fst (rotate_ctl c dx dy cc)) =
       v_add (setFromSpherical
         \<lparr>radius = radius (setFromVector3 (v_sub (position (fst cc)) c)),
          phi = max minPhi (min maxPhi (phi (setFromVector3 (v_sub (position (fst cc)) c)) - dy * 0.01)),
          theta = theta (setFromVector3 (v_sub (position (fst cc)) c)) - dx * 0.01\<rparr>) c"
    using rotate_position [of c dx dy cc] by (simp add: rotated_def Let_def)
  have 3: "lookAt (fst (rotate_ctl c dx dy cc)) = c" "target (snd (rotate_ctl c dx dy cc)) = c"
    by (simp_all add: rotate_ctl_def Let_def)
  have 4: "phi (setFromVector3 (v_sub (position (fst (rotate_ctl c dx dy cc))) c))
           = max minPhi (min maxPhi (phi (setFromVector3 (v_sub (position (fst cc)) c)) - dy * 0.01))
       \<and> sin (theta (setFromVector3 (v_sub (position (fst (rotate_ctl c dx dy cc))) c)))
           = sin (theta (setFromVector3 (v_sub (position (fst cc)) c)) - dx * 0.01)
       \<and> cos (theta (setFromVector3 (v_sub (position (fst (rotate_ctl c dx dy cc))) c)))
           = cos (theta (setFromVector3 (v_sub (position (fst cc)) c)) - dx * 0.01)"
    if off: "position (fst cc) \<noteq> c"
  proof -
    have r: "0 < radius ?s" using off by (simp add: rotated_def Let_def radius_pos_iff)
    have "minPhi \<le> phi ?s" "phi ?s \<le> maxPhi"
      using minPhi_le_maxPhi by (simp_all add: rotated_def Let_def)
    then have "0 < phi ?s" "phi ?s < pi" by (simp_all add: minPhi_def maxPhi_def)
    then have sp: "0 < sin (phi ?s)" by (rule sin_gt_zero)
    have "sin (theta (setFromVector3 (setFromSpherical ?s))) = sin (theta ?s)
        \<and> cos (theta (setFromVector3 (setFromSpherical ?s))) = cos (theta ?s)"
      using r sp by (rule theta_setFromSpherical)
    moreover have "theta ?s = theta (setFromVector3 (v_sub (position (fst cc)) c)) - dx * 0.01"
      by (simp add: rotated_def Let_def)
    ultimately show ?thesis
      using polarAngle_rotate [OF off, of dx dy]
      by (simp add: polarAngle_def rotate_position)
  qed
  from 1 2 3 4 show ?thesis by blast
qed

theorem rotate_preserves_radius_witness:
  "position (fst (levelCamera, draggingControls)) \<noteq> origin
   \<and> radius (setFromVector3
        (v_sub (position (fst (rotate_ctl origin 0 0 (levelCamera, draggingControls)))) origin)) = 1
   \<and> phi (setFromVector3
        (v_sub (position (fst (rotate_ctl origin 0 0 (levelCamera, draggingControls)))) origin))
       = pi / 2"
proof -
  have off: "position (fst (levelCamera, draggingControls)) \<noteq> origin"
    by (simp add: levelCamera_def origin_def)
  have old: "setFromVector3 (v_sub (position (fst (levelCamera, draggingControls))) origin)
             = \<lparr>radius = 1, phi = pi / 2, theta = 0\<rparr>"
    by (simp add: levelCamera_def origin_def setFromVector3_def v_sub_def clamp_def atan2_def
        Let_def)
  have m: "max minPhi (min maxPhi (pi / 2 - 0 * 0.01)) = pi / 2"
    using pi_ge_two by (simp add: minPhi_def maxPhi_def)
  from rotate_preserves_radius [of origin 0 0 "(levelCamera, draggingControls)"]
  have a: "radius (setFromVector3
        (v_sub (position (fst (rotate_ctl origin 0 0 (levelCamera, draggingControls)))) origin))
      = radius (setFromVector3 (v_sub (position (fst (levelCamera, draggingControls))) origin))"
    and b: "position (fst (levelCamera, draggingControls)) \<noteq> origin \<longrightarrow>
      phi (setFromVector3
        (v_sub (position (fst (rotate_ctl origin 0 0 (levelCamera, draggingControls)))) origin))
      = max minPhi (min maxPhi
          (phi (setFromVector3 (v_sub (position (fst (levelCamera, draggingControls))) origin))
           - 0 * 0.01))"
    by blast+
  have "radius (setFromVector3
        (v_sub (position (fst (rotate_ctl origin 0 0 (levelCamera, draggingControls)))) origin)) = 1"
    unfolding a old by simp
  moreover have "phi (setFromVector3
        (v_sub (position (fst (rotate_ctl origin 0 0 (levelCamera, draggingControls)))) origin))
       = pi / 2"
    using b off unfolding old using m by simp
  ultimately show ?thesis using off by blast
qed

text \<open>One pointer move, from a polar angle inside the range.\<close>

lemma onMouseMove_rotate_step:
  assumes "leftButton (snd cc)" and "enableRotate (snd cc)" and "position (fst cc) \<noteq> c"
    and "minPhi \<le> polarAngle c cc" and "polarAngle c cc \<le> maxPhi"
  shows "polarAngle c (onMouseMove_rotate c dx dy cc)
           = max minPhi (min maxPhi (polarAngle c cc - dy * 0.01))
       \<and> leftButton (snd (onMouseMove_rotate c dx dy cc))
       \<and> enableRotate (snd (onMouseMove_rotate c dx dy cc))
       \<and> position (fst (onMouseMove_rotate c dx dy cc)) \<noteq> c"
proof (cases "onMouseMove_rotate c dx dy cc = rotate_ctl c dx dy cc")
  case True
  then show ?thesis
    using assms polarAngle_rotate [OF assms(3)] rotate_keeps_off_centre [OF assms(3)]
      rotate_keeps_buttons [of c dx dy cc]
    by simp
next
  case False
  then have same: "onMouseMove_rotate c dx dy cc = cc"
    by (simp add: onMouseMove_rotate_def Let_def split: if_splits)
  have "(polarAngle c cc \<le> minPhi \<and> \<not> dy < 0) \<or> (polarAngle c cc \<ge> maxPhi \<and> \<not> dy > 0)"
    using False assms(1,2)
    by (simp add: onMouseMove_rotate_def Let_def polarAngle_def split: if_splits)
  then have "max minPhi (min maxPhi (polarAngle c cc - dy * 0.01)) = polarAngle c cc"
    using assms(4,5) minPhi_le_maxPhi by (auto simp: max_def min_def)
  then show ?thesis using same assms by simp
qed

lemma rotateMoves_in_range:
  assumes "leftButton (snd cc)" and "enableRotate (snd cc)" and "position (fst cc) \<noteq> c"
    and "minPhi \<le> polarAngle c cc" and "polarAngle c cc \<le> maxPhi"
  shows "minPhi \<le> polarAngle c (rotateMoves c moves cc)
       \<and> polarAngle c (rotateMoves c moves cc) \<le> maxPhi"
  using assms
proof (induction moves arbitrary: cc)
  case Nil
  then show ?case by (simp add: rotateMoves_def)
next
  case (Cons m moves)
  let ?cc1 = "onMouseMove_rotate c (fst m) (snd m) cc"
  from onMouseMove_rotate_step [OF Cons.prems, of "fst m" "snd m"]
  have s: "polarAngle c ?cc1 = max minPhi (min maxPhi (polarAngle c cc - snd m * 0.01))"
    "leftButton (snd ?cc1)" "enableRotate (snd ?cc1)" "position (fst ?cc1) \<noteq> c"
    by simp_all
  have "minPhi \<le> polarAngle c ?cc1" "polarAngle c ?cc1 \<le> maxPhi"
    using s(1) minPhi_le_maxPhi by simp_all
  from Cons.IH [OF s(2,3,4) this] show ?case by (simp add: rotateMoves_def)
qed

lemma max_chain:
  fixes a y t :: real
  assumes "0 \<le> t"
  shows "max a (max a y - t) = max a (y - t)"
  using assms by (auto simp: max_def)

text \<open>Moves that never go up (\<open>deltaY \<ge> 0\<close>) lower the polar angle down to \<open>minPhi\<close>.\<close>

lemma rotateMoves_down:
  assumes "leftButton (snd cc)" and "enableRotate (snd cc)" and "position (fst cc) \<noteq> c"
    and "minPhi \<le> polarAngle c cc" and "polarAngle c cc \<le> maxPhi"
    and "\<forall>m \<in> set moves. 0 \<le> snd m"
  shows "polarAngle c (rotateMoves c moves cc)
           = max minPhi (polarAngle c cc - sum_list (map snd moves) * 0.01)"
  using assms
proof (induction moves arbitrary: cc)
  case Nil
  then show ?case by (simp add: rotateMoves_def)
next
  case (Cons m moves)
  let ?cc1 = "onMouseMove_rotate c (fst m) (snd m) cc"
  have d: "0 \<le> snd m" and rest: "\<forall>m \<in> set moves. 0 \<le> snd m" using Cons.prems(6) by simp_all
  from onMouseMove_rotate_step [OF Cons.prems(1-5), of "fst m" "snd m"]
  have s: "polarAngle c ?cc1 = max minPhi (min maxPhi (polarAngle c cc - snd m * 0.01))"
    "leftButton (snd ?cc1)" "enableRotate (snd ?cc1)" "position (fst ?cc1) \<noteq> c"
    by simp_all
  have "polarAngle c cc - snd m * 0.01 \<le> maxPhi" using d Cons.prems(5) by simp
  then have one: "polarAngle c ?cc1 = max minPhi (polarAngle c cc - snd m * 0.01)"
    using s(1) by (simp add: min_absorb2)
  have rng: "minPhi \<le> polarAngle c ?cc1" "polarAngle c ?cc1 \<le> maxPhi"
    using s(1) minPhi_le_maxPhi by simp_all
  have S: "0 \<le> sum_list (map snd moves)" using rest by (intro sum_list_nonneg) auto
  have "polarAngle c (rotateMoves c (m # moves) cc) = polarAngle c (rotateMoves c moves ?cc1)"
    by (simp add: rotateMoves_def)
  also have "\<dots> = max minPhi (polarAngle c ?cc1 - sum_list (map snd moves) * 0.01)"
    using Cons.IH [OF s(2,3,4) rng rest] .
  also have "\<dots> = max minPhi (polarAngle c cc - snd m * 0.01 - sum_list (map snd moves) * 0.01)"
    using max_chain [of "sum_list (map snd moves) * 0.01" minPhi "polarAngle c cc - snd m * 0.01"]
      one S by simp
  also have "\<dots> = max minPhi (polarAngle c cc - sum_list (map snd (m # moves)) * 0.01)"
    by (simp add: algebra_simps add_divide_distrib)
  finally show ?case .
qed

text \<open>Moves that never go down (\<open>deltaY \<le> 0\<close>) raise the polar angle up to \<open>maxPhi\<close>.\<close>

lemma min_chain:
  fixes a y t :: real
  assumes "0 \<le> t"
  shows "min a (min a y + t) = min a (y + t)"
  using assms by (auto simp: min_def)

lemma rotateMoves_up:
  assumes "leftButton (snd cc)" and "enableRotate (snd cc)" and "position (fst cc) \<noteq> c"
    and "minPhi \<le> polarAngle c cc" and "polarAngle c cc \<le> maxPhi"
    and "\<forall>m \<in> set moves. snd m \<le> 0"
  shows "polarAngle c (rotateMoves c moves cc)
           = min maxPhi (polarAngle c cc - sum_list (map snd moves) * 0.01)"
  using assms
proof (induction moves arbitrary: cc)
  case Nil
  then show ?case by (simp add: rotateMoves_def)
next
  case (Cons m moves)
  let ?cc1 = "onMouseMove_rotate c (fst m) (snd m) cc"
  have d: "snd m \<le> 0" and rest: "\<forall>m \<in> set moves. snd m \<le> 0" using Cons.prems(6) by simp_all
  from onMouseMove_rotate_step [OF Cons.prems(1-5), of "fst m" "snd m"]
  have s: "polarAngle c ?cc1 = max minPhi (min maxPhi (polarAngle c cc - snd m * 0.01))"
    "leftButton (snd ?cc1)" "enableRotate (snd ?cc1)" "position (fst ?cc1) \<noteq> c"
    by simp_all
  have "minPhi \<le> min maxPhi (polarAngle c cc - snd m * 0.01)"
    using d Cons.prems(4) minPhi_le_maxPhi by simp
  then have one: "polarAngle c ?cc1 = min maxPhi (polarAngle c cc - snd m * 0.01)"
    using s(1) by (simp add: max_absorb2)
  have rng: "minPhi \<le> polarAngle c ?cc1" "polarAngle c ?cc1 \<le> maxPhi"
    using s(1) minPhi_le_maxPhi by simp_all
  have "sum_list (map snd moves) \<le> 0" using rest by (intro sum_list_nonpos) auto
  then have S: "0 \<le> - (sum_list (map snd moves) * 0.01)" by simp
  have "polarAngle c (rotateMoves c (m # moves) cc) = polarAngle c (rotateMoves c moves ?cc1)"
    by (simp add: rotateMoves_def)
  also have "\<dots> = min maxPhi (polarAngle c ?cc1 - sum_list (map snd moves) * 0.01)"
    using Cons.IH [OF s(2,3,4) rng rest] .
  also have "\<dots> = min maxPhi (polarAngle c cc - snd m * 0.01 - sum_list (map snd moves) * 0.01)"
    using min_chain [OF S, of maxPhi "polarAngle c cc - snd m * 0.01"] one by simp
  also have "\<dots> = min maxPhi (polarAngle c cc - sum_list (map snd (m # moves)) * 0.01)"
    by (simp add: algebra_simps add_divide_distrib)
  finally show ?case .
qed

text \<open>The gate of the handler, by the polar angle before the update.\<close>

lemma onMouseMove_rotate_gate:
  assumes "leftButton (snd cc)" and "enableRotate (snd cc)"
  shows "(polarAngle c cc \<le> minPhi \<longrightarrow>
            onMouseMove_rotate c dx dy cc = (if dy < 0 then rotate_ctl c dx dy cc else cc))
       \<and> (minPhi < polarAngle c cc \<and> maxPhi \<le> polarAngle c cc \<longrightarrow>
            onMouseMove_rotate c dx dy cc = (if dy > 0 then rotate_ctl c dx dy cc else cc))
       \<and> (minPhi < polarAngle c cc \<and> polarAngle c cc < maxPhi \<longrightarrow>
            onMouseMove_rotate c dx dy cc = rotate_ctl c dx dy cc)"
  using assms by (simp add: onMouseMove_rotate_def polarAngle_def Let_def)

text \<open>
  C1 (as the code has it), for the primary button held, rotation enabled and a camera that
  is not at the model centre, with \<open>minPhi = 0.01\<close> and \<open>maxPhi = \<pi> - 0.01\<close>.
  At or below the lower bound a pointer move is applied only if \<open>deltaY < 0\<close>, at or above
  the upper bound only if \<open>deltaY > 0\<close>, and in between always. Every applied rotation
  leaves the polar angle in \<open>[minPhi, maxPhi]\<close>, and from a polar angle in that range every
  sequence of pointer moves keeps it there. The update is \<open>phi - deltaY * 0.01\<close>: moves
  with \<open>deltaY \<ge> 0\<close> lower the polar angle to \<open>max minPhi (phi - 0.01 * \<Sum>deltaY)\<close>, so
  a large positive \<open>deltaY\<close> drives it to the lower bound \<open>minPhi\<close> and further such moves
  keep it there; moves with \<open>deltaY \<le> 0\<close> raise it to
  \<open>min maxPhi (phi - 0.01 * \<Sum>deltaY)\<close>, the upper bound being reached by negative
  \<open>deltaY\<close>.
\<close>

theorem polar_angle_clamped:
  assumes "leftButton (snd cc)" and "enableRotate (snd cc)" and "position (fst cc) \<noteq> c"
  shows "(polarAngle c cc \<le> minPhi \<longrightarrow>
            onMouseMove_rotate c dx dy cc = (if dy < 0 then rotate_ctl c dx dy cc else cc))
       \<and> (minPhi < polarAngle c cc \<and> maxPhi \<le> polarAngle c cc \<longrightarrow>
            onMouseMove_rotate c dx dy cc = (if dy > 0 then rotate_ctl c dx dy cc else cc))
       \<and> (minPhi < polarAngle c cc \<and> polarAngle c cc < maxPhi \<longrightarrow>
            onMouseMove_rotate c dx dy cc = rotate_ctl c dx dy cc)
       \<and> minPhi \<le> polarAngle c (rotate_ctl c dx dy cc)
       \<and> polarAngle c (rotate_ctl c dx dy cc) \<le> maxPhi
       \<and> (minPhi \<le> polarAngle c cc \<and> polarAngle c cc \<le> maxPhi \<longrightarrow>
            minPhi \<le> polarAngle c (rotateMoves c moves cc)
          \<and> polarAngle c (rotateMoves c moves cc) \<le> maxPhi
          \<and> ((\<forall>m \<in> set moves. 0 \<le> snd m) \<longrightarrow>
                polarAngle c (rotateMoves c moves cc)
                  = max minPhi (polarAngle c cc - sum_list (map snd moves) * 0.01))
          \<and> ((\<forall>m \<in> set moves. snd m \<le> 0) \<longrightarrow>
                polarAngle c (rotateMoves c moves cc)
                  = min maxPhi (polarAngle c cc - sum_list (map snd moves) * 0.01)))"
proof -
  have "minPhi \<le> polarAngle c (rotate_ctl c dx dy cc)
       \<and> polarAngle c (rotate_ctl c dx dy cc) \<le> maxPhi"
    using polarAngle_rotate [OF assms(3), of dx dy] minPhi_le_maxPhi by simp
  moreover have "minPhi \<le> polarAngle c cc \<and> polarAngle c cc \<le> maxPhi \<longrightarrow>
            minPhi \<le> polarAngle c (rotateMoves c moves cc)
          \<and> polarAngle c (rotateMoves c moves cc) \<le> maxPhi
          \<and> ((\<forall>m \<in> set moves. 0 \<le> snd m) \<longrightarrow>
                polarAngle c (rotateMoves c moves cc)
                  = max minPhi (polarAngle c cc - sum_list (map snd moves) * 0.01))
          \<and> ((\<forall>m \<in> set moves. snd m \<le> 0) \<longrightarrow>
                polarAngle c (rotateMoves c moves cc)
                  = min maxPhi (polarAngle c cc - sum_list (map snd moves) * 0.01))"
    using rotateMoves_in_range [OF assms, of moves] rotateMoves_down [OF assms, of moves]
      rotateMoves_up [OF assms, of moves]
    by blast
  ultimately show ?thesis
    using onMouseMove_rotate_gate [OF assms(1,2), of c dx dy] by blast
qed

lemma polarAngle_level: "polarAngle origin (levelCamera, draggingControls) = pi / 2"
  by (simp add: polarAngle_def levelCamera_def origin_def setFromVector3_def v_sub_def
      clamp_def Let_def)

lemma level_in_range:
  "minPhi \<le> polarAngle origin (levelCamera, draggingControls)
   \<and> polarAngle origin (levelCamera, draggingControls) \<le> maxPhi"
  using pi_ge_two by (simp add: polarAngle_level minPhi_def maxPhi_def)

lemma level_off_centre: "position (fst (levelCamera, draggingControls)) \<noteq> origin"
  by (simp add: levelCamera_def origin_def)

theorem polar_angle_clamped_witness:
  "leftButton (snd (levelCamera, draggingControls))
   \<and> enableRotate (snd (levelCamera, draggingControls))
   \<and> position (fst (levelCamera, draggingControls)) \<noteq> origin
   \<and> minPhi \<le> polarAngle origin (levelCamera, draggingControls)
   \<and> polarAngle origin (levelCamera, draggingControls) \<le> maxPhi
   \<and> polarAngle origin
       (rotateMoves origin [(0, 1000), (5, 1000)] (levelCamera, draggingControls)) = minPhi
   \<and> polarAngle origin
       (rotateMoves origin [(0, - 1000)] (levelCamera, draggingControls)) = maxPhi"
proof -
  have b: "leftButton (snd (levelCamera, draggingControls))"
    "enableRotate (snd (levelCamera, draggingControls))"
    by (simp_all add: draggingControls_def)
  have lo: "pi / 2 - 20 \<le> minPhi" using pi_less_4 by (simp add: minPhi_def)
  have hi: "maxPhi \<le> pi / 2 + 10" using pi_less_4 by (simp add: maxPhi_def)
  from polar_angle_clamped [OF b level_off_centre, of 0 0 "[(0, 1000), (5, 1000)]"]
    level_in_range
  have "polarAngle origin
       (rotateMoves origin [(0, 1000), (5, 1000)] (levelCamera, draggingControls))
        = max minPhi (pi / 2 - 20)"
    by (simp add: polarAngle_level)
  moreover
  from polar_angle_clamped [OF b level_off_centre, of 0 0 "[(0, - 1000)]"] level_in_range
  have "polarAngle origin
       (rotateMoves origin [(0, - 1000)] (levelCamera, draggingControls))
        = min maxPhi (pi / 2 + 10)"
    by (simp add: polarAngle_level)
  ultimately show ?thesis
    using b level_off_centre level_in_range lo hi by (simp add: max_absorb1 min_absorb1)
qed

text \<open>
  Two moves with the large positive \<open>deltaY = 1000\<close> leave the polar angle at the lower
  bound, not at the upper one.
\<close>

theorem positive_deltaY_reaches_minPhi:
  "polarAngle origin
     (rotateMoves origin [(0, 1000), (0, 1000)] (levelCamera, draggingControls)) = minPhi
   \<and> minPhi < maxPhi"
proof -
  have b: "leftButton (snd (levelCamera, draggingControls))"
    "enableRotate (snd (levelCamera, draggingControls))"
    by (simp_all add: draggingControls_def)
  have lo: "pi / 2 - 20 \<le> minPhi" using pi_less_4 by (simp add: minPhi_def)
  have r: "minPhi \<le> polarAngle origin (levelCamera, draggingControls)"
    "polarAngle origin (levelCamera, draggingControls) \<le> maxPhi"
    using level_in_range by simp_all
  have "polarAngle origin
     (rotateMoves origin [(0, 1000), (0, 1000)] (levelCamera, draggingControls))
        = max minPhi (pi / 2 - 20)"
    using rotateMoves_down [OF b level_off_centre r, of "[(0, 1000), (0, 1000)]"]
    by (simp add: polarAngle_level)
  moreover have "minPhi < maxPhi" using pi_ge_two by (simp add: minPhi_def maxPhi_def)
  ultimately show ?thesis using lo by (simp add: max_absorb1)
qed

section \<open>Viewport resize (ThreeJSViewer)\<close>

text \<open>
  \<^verbatim>\<open>zoomOrthographic(delta)\<close> of the controls: the wheel scales the four half-extents
  and leaves the viewer's \<^verbatim>\<open>frustumSize\<close> alone.
\<close>

definition zoomOrthographic :: "real \<Rightarrow> camera \<Rightarrow> camera" where
  "zoomOrthographic delta cam =
     (let zoomSpeed = 0.05;
          minFrustumSize = 0.1;
          maxFrustumSize = 1000;
          zoomFactor = (if delta < 0 then 1 - zoomSpeed else 1 + zoomSpeed);
          newTop = cam_top cam * zoomFactor
      in if newTop > minFrustumSize \<and> newTop < maxFrustumSize
         then cam\<lparr>cam_top := newTop,
                  cam_bottom := cam_bottom cam * zoomFactor,
                  cam_left := cam_left cam * zoomFactor,
                  cam_right := cam_right cam * zoomFactor\<rparr>
         else cam)"

definition getZoom :: "camera \<Rightarrow> controls \<Rightarrow> real" where
  "getZoom cam ctl =
     (if isOrthographicCamera cam then cam_top cam
      else distanceTo (position cam) (target ctl))"

text \<open>
  \<^verbatim>\<open>setZoom(zoom)\<close>. With \<^verbatim>\<open>camera.top = 0\<close> the quotient \<^verbatim>\<open>right / top\<close> is not a finite
  number; the model has no such values and gives no result (\<open>None\<close>) there.
\<close>

definition setZoom :: "real \<Rightarrow> camera \<Rightarrow> controls \<Rightarrow> camera option" where
  "setZoom zoom cam ctl =
     (if isOrthographicCamera cam then
        (if cam_top cam = 0 then None
         else
           (let aspect = cam_right cam / cam_top cam
            in Some (cam\<lparr>cam_top := zoom, cam_bottom := - zoom,
                         cam_left := - zoom * aspect, cam_right := zoom * aspect\<rparr>)))
      else
        (let direction = normalize (v_sub (position cam) (target ctl))
         in Some (cam\<lparr>position := v_add (target ctl) (multiplyScalar direction zoom)\<rparr>)))"

text \<open>
  The container's sizes as the browser reports them: \<^verbatim>\<open>getBoundingClientRect()\<close> and
  \<^verbatim>\<open>clientWidth\<close>, \<^verbatim>\<open>clientHeight\<close>. They are real numbers, so \<^verbatim>\<open>isFinite\<close> holds.
\<close>

record container =
  rectWidth :: real
  rectHeight :: real
  clientWidth :: real
  clientHeight :: real

text \<open>
  The viewer after \<^verbatim>\<open>init\<close>: it has its camera (so \<^verbatim>\<open>!this.camera\<close> is false); the
  controls are there or not.
\<close>

record viewer =
  viewerCamera :: camera
  viewerControls :: "controls option"
  frustumSize :: real
  rendererSize :: "real \<times> real"

definition updateCameraFrustum :: "container \<Rightarrow> viewer \<Rightarrow> viewer" where
  "updateCameraFrustum cont v =
     (if \<not> isOrthographicCamera (viewerCamera v) then v
      else
        (let width = rectWidth cont; height = rectHeight cont
         in if width \<le> 0 \<or> height \<le> 0 then v
            else
              (let aspect = width / height;
                   safeFrustumSize = (if frustumSize v = 0 then 20 else frustumSize v);
                   halfHeight = safeFrustumSize * 0.5;
                   halfWidth = halfHeight * aspect
               in v\<lparr>viewerCamera := (viewerCamera v)
                       \<lparr>cam_left := - halfWidth, cam_right := halfWidth,
                        cam_top := halfHeight, cam_bottom := - halfHeight\<rparr>\<rparr>)))"

definition onWindowResize :: "container \<Rightarrow> viewer \<Rightarrow> viewer option" where
  "onWindowResize cont v =
     (let width = clientWidth cont; height = clientHeight cont;
          currentZoom = (case viewerControls v of
                           Some ctl \<Rightarrow> getZoom (viewerCamera v) ctl | None \<Rightarrow> 1);
          v1 = updateCameraFrustum cont v
      in case viewerControls v1 of
           None \<Rightarrow> Some (v1\<lparr>rendererSize := (width, height)\<rparr>)
         | Some ctl \<Rightarrow>
             (case setZoom currentZoom (viewerCamera v1) ctl of
                None \<Rightarrow> None
              | Some cam \<Rightarrow> Some (v1\<lparr>viewerCamera := cam, rendererSize := (width, height)\<rparr>)))"

lemma resize_extents:
  assumes "isOrthographicCamera (viewerCamera v)" and "viewerControls v = Some ctl"
    and "0 < rectWidth cont" and "0 < rectHeight cont"
  shows "\<exists>v'. onWindowResize cont v = Some v'
           \<and> frustumSize v' = frustumSize v
           \<and> cam_top (viewerCamera v') = cam_top (viewerCamera v)
           \<and> cam_bottom (viewerCamera v') = - cam_top (viewerCamera v)
           \<and> cam_right (viewerCamera v')
               = cam_top (viewerCamera v) * (rectWidth cont / rectHeight cont)
           \<and> cam_left (viewerCamera v') = - cam_right (viewerCamera v')
           \<and> rendererSize v' = (clientWidth cont, clientHeight cont)"
  using assms
  by (simp add: onWindowResize_def updateCameraFrustum_def setZoom_def getZoom_def Let_def)

text \<open>
  C2 (as the code has it). For an orthographic camera, controls present and a container
  of positive width and height, a resize keeps the cached \<^verbatim>\<open>frustumSize\<close> and the
  half-height (\<^verbatim>\<open>camera.top\<close>, which the handler saves and restores through
  \<^verbatim>\<open>getZoom\<close>/\<^verbatim>\<open>setZoom\<close>); the half-width becomes that half-height times the new aspect
  ratio, the extents are symmetric, and the renderer takes the new size. The half-width is
  \<open>frustumSize / 2 * aspect\<close> when the half-height is \<open>frustumSize / 2\<close>, that is when no
  wheel zoom has changed it since the frustum was last set from \<^verbatim>\<open>frustumSize\<close>.
\<close>

theorem resize_keeps_zoom:
  assumes "isOrthographicCamera (viewerCamera v)" and "viewerControls v = Some ctl"
    and "0 < rectWidth cont" and "0 < rectHeight cont"
  shows "\<exists>v'. onWindowResize cont v = Some v'
           \<and> frustumSize v' = frustumSize v
           \<and> cam_top (viewerCamera v') = cam_top (viewerCamera v)
           \<and> cam_bottom (viewerCamera v') = - cam_top (viewerCamera v)
           \<and> cam_right (viewerCamera v')
               = cam_top (viewerCamera v) * (rectWidth cont / rectHeight cont)
           \<and> cam_left (viewerCamera v') = - cam_right (viewerCamera v')
           \<and> (cam_top (viewerCamera v) = frustumSize v / 2 \<longrightarrow>
                cam_right (viewerCamera v')
                  = frustumSize v / 2 * (rectWidth cont / rectHeight cont))
           \<and> rendererSize v' = (clientWidth cont, clientHeight cont)"
proof -
  from resize_extents [OF assms] obtain v' where r: "onWindowResize cont v = Some v'"
    "frustumSize v' = frustumSize v"
    "cam_top (viewerCamera v') = cam_top (viewerCamera v)"
    "cam_bottom (viewerCamera v') = - cam_top (viewerCamera v)"
    "cam_right (viewerCamera v') = cam_top (viewerCamera v) * (rectWidth cont / rectHeight cont)"
    "cam_left (viewerCamera v') = - cam_right (viewerCamera v')"
    "rendererSize v' = (clientWidth cont, clientHeight cont)"
    by blast
  have "cam_top (viewerCamera v) = frustumSize v / 2 \<longrightarrow>
          cam_right (viewerCamera v') = frustumSize v / 2 * (rectWidth cont / rectHeight cont)"
  proof (rule impI)
    assume e: "cam_top (viewerCamera v) = frustumSize v / 2"
    show "cam_right (viewerCamera v') = frustumSize v / 2 * (rectWidth cont / rectHeight cont)"
      by (simp only: r(5) e)
  qed
  with r show ?thesis by blast
qed

text \<open>A viewer fitted with \<^verbatim>\<open>frustumSize = 20\<close> in a container twice as wide as high.\<close>

definition fittedViewer :: viewer where
  "fittedViewer =
     \<lparr>viewerCamera = levelCamera, viewerControls = Some draggingControls,
      frustumSize = 20, rendererSize = (800, 400)\<rparr>"

definition wideContainer :: container where
  "wideContainer = \<lparr>rectWidth = 900, rectHeight = 300, clientWidth = 900, clientHeight = 300\<rparr>"

theorem resize_keeps_zoom_witness:
  "isOrthographicCamera (viewerCamera fittedViewer)
   \<and> viewerControls fittedViewer = Some draggingControls
   \<and> 0 < rectWidth wideContainer \<and> 0 < rectHeight wideContainer
   \<and> (\<exists>v'. onWindowResize wideContainer fittedViewer = Some v'
         \<and> frustumSize v' = 20 \<and> cam_top (viewerCamera v') = 10
         \<and> cam_right (viewerCamera v') = 30)"
  using resize_keeps_zoom [of fittedViewer draggingControls wideContainer]
  by (auto simp: fittedViewer_def wideContainer_def levelCamera_def)

text \<open>
  After one wheel step inwards the half-height is 9.5; a resize to the aspect ratio 3 then
  gives the half-width 28.5, not \<open>frustumSize / 2 * aspect = 30\<close>.
\<close>

theorem resize_after_wheel_zoom:
  "map_option frustumSize
     (onWindowResize wideContainer
        (fittedViewer\<lparr>viewerCamera := zoomOrthographic (- 100) (viewerCamera fittedViewer)\<rparr>))
     = Some 20
   \<and> map_option (cam_top \<circ> viewerCamera)
     (onWindowResize wideContainer
        (fittedViewer\<lparr>viewerCamera := zoomOrthographic (- 100) (viewerCamera fittedViewer)\<rparr>))
     = Some (19 / 2)
   \<and> map_option (cam_right \<circ> viewerCamera)
     (onWindowResize wideContainer
        (fittedViewer\<lparr>viewerCamera := zoomOrthographic (- 100) (viewerCamera fittedViewer)\<rparr>))
     = Some (57 / 2)
   \<and> frustumSize fittedViewer / 2 * (rectWidth wideContainer / rectHeight wideContainer) = 30"
  by (simp add: onWindowResize_def updateCameraFrustum_def setZoom_def getZoom_def Let_def
      fittedViewer_def wideContainer_def levelCamera_def zoomOrthographic_def)

section \<open>Picking (EventManager.handleModelClick)\<close>

text \<open>
  An object of the scene as picking sees it: its \<^verbatim>\<open>userData.globalId\<close>, its material
  (a group has none) and its parent. The scene graph is a tree, so the chain of parents
  is finite.
\<close>

datatype sceneNode =
  SceneNode (nodeGlobalId: "string option") (nodeMaterial: "material option")
    (nodeParent: "sceneNode option")

text \<open>One entry of the array \<^verbatim>\<open>raycaster.intersectObjects\<close> returns.\<close>

record intersection =
  distance :: real
  object :: sceneNode

text \<open>
  \<^verbatim>\<open>findGlobalId\<close>: the loop walks up \<^verbatim>\<open>current.parent\<close> and returns the first
  \<^verbatim>\<open>globalId\<close> that is truthy (a non-empty string).
\<close>

fun findGlobalId :: "sceneNode \<Rightarrow> string option" where
  "findGlobalId (SceneNode g m p) =
     (case g of
        Some s \<Rightarrow>
          if s \<noteq> [] then Some s
          else (case p of None \<Rightarrow> None | Some parent \<Rightarrow> findGlobalId parent)
      | None \<Rightarrow> (case p of None \<Rightarrow> None | Some parent \<Rightarrow> findGlobalId parent))"

text \<open>\<^verbatim>\<open>object.material && object.material.transparent\<close>, as a truth value.\<close>

definition isTransparent :: "sceneNode \<Rightarrow> bool" where
  "isTransparent n = (case nodeMaterial n of None \<Rightarrow> False | Some m \<Rightarrow> transparent m)"

text \<open>The comparison function given to \<^verbatim>\<open>intersects.sort\<close>.\<close>

definition compareIntersects :: "intersection \<Rightarrow> intersection \<Rightarrow> real" where
  "compareIntersects a b =
     (let aTransparent = isTransparent (object a);
          bTransparent = isTransparent (object b)
      in if aTransparent \<and> \<not> bTransparent then 1
         else if \<not> aTransparent \<and> bTransparent then - 1
         else distance a - distance b)"

text \<open>
  \<^verbatim>\<open>Array.prototype.sort\<close> with a comparison function is a stable sort: an element
  stays before the later elements it does not compare greater than. It is modelled by
  insertion from the right.
\<close>

fun sortInsert :: "('a \<Rightarrow> 'a \<Rightarrow> real) \<Rightarrow> 'a \<Rightarrow> 'a list \<Rightarrow> 'a list" where
  "sortInsert cmp x [] = [x]"
| "sortInsert cmp x (y # ys) =
     (if cmp x y \<le> 0 then x # y # ys else y # sortInsert cmp x ys)"

fun arraySort :: "('a \<Rightarrow> 'a \<Rightarrow> real) \<Rightarrow> 'a list \<Rightarrow> 'a list" where
  "arraySort cmp [] = []"
| "arraySort cmp (x # xs) = sortInsert cmp x (arraySort cmp xs)"

text \<open>The first loop: the first candidate with a \<^verbatim>\<open>globalId\<close> that is not transparent.\<close>

fun firstOpaque :: "intersection list \<Rightarrow> string option" where
  "firstOpaque [] = None"
| "firstOpaque (intersect # rest) =
     (case findGlobalId (object intersect) of
        Some g \<Rightarrow> if \<not> isTransparent (object intersect) then Some g else firstOpaque rest
      | None \<Rightarrow> firstOpaque rest)"

text \<open>The second loop: the first candidate with a \<^verbatim>\<open>globalId\<close>.\<close>

fun firstResolved :: "intersection list \<Rightarrow> string option" where
  "firstResolved [] = None"
| "firstResolved (intersect # rest) =
     (case findGlobalId (object intersect) of
        Some g \<Rightarrow> Some g
      | None \<Rightarrow> firstResolved rest)"

text \<open>
  \<^verbatim>\<open>handleModelClick\<close>, from the intersections the ray caster found. \<open>ready\<close> says that
  the viewer has its camera and its scene. The result is the \<^verbatim>\<open>globalId\<close> handed to
  \<^verbatim>\<open>selectObjectByGuid\<close>, or \<open>None\<close> when the handler selects nothing.
\<close>

definition handleModelClick :: "bool \<Rightarrow> intersection list \<Rightarrow> string option" where
  "handleModelClick ready found =
     (if \<not> ready then None
      else
        (let intersects = arraySort compareIntersects found
         in if length intersects > 0 then
              (case firstOpaque intersects of
                 Some selectedGlobalId \<Rightarrow> Some selectedGlobalId
               | None \<Rightarrow> firstResolved intersects)
            else None))"

subsection \<open>The order of the candidates\<close>

text \<open>Opaque before translucent, then by ascending distance.\<close>

definition pickOrder :: "intersection \<Rightarrow> intersection \<Rightarrow> bool" where
  "pickOrder a b \<longleftrightarrow>
     (\<not> isTransparent (object a) \<and> isTransparent (object b))
     \<or> (isTransparent (object a) = isTransparent (object b) \<and> distance a \<le> distance b)"

lemma compare_pickOrder: "compareIntersects a b \<le> 0 \<longleftrightarrow> pickOrder a b"
  by (auto simp: compareIntersects_def pickOrder_def Let_def)

lemma pickOrder_total: "pickOrder a b \<or> pickOrder b a"
  by (auto simp: pickOrder_def)

lemma pickOrder_trans: "pickOrder a b \<Longrightarrow> pickOrder b c \<Longrightarrow> pickOrder a c"
  by (auto simp: pickOrder_def)

lemma mset_sortInsert: "mset (sortInsert cmp x ys) = add_mset x (mset ys)"
  by (induction ys) simp_all

lemma mset_arraySort: "mset (arraySort cmp xs) = mset xs"
  by (induction xs) (simp_all add: mset_sortInsert)

lemma set_sortInsert: "set (sortInsert cmp x ys) = insert x (set ys)"
  by (induction ys) auto

lemma sorted_sortInsert:
  "sorted_wrt pickOrder ys \<Longrightarrow> sorted_wrt pickOrder (sortInsert compareIntersects x ys)"
proof (induction ys)
  case Nil
  then show ?case by simp
next
  case (Cons y ys)
  show ?case
  proof (cases "compareIntersects x y \<le> 0")
    case True
    then have xy: "pickOrder x y" by (simp add: compare_pickOrder)
    then have "\<forall>z \<in> set ys. pickOrder x z"
      using Cons.prems pickOrder_trans by auto
    then show ?thesis using True xy Cons.prems by simp
  next
    case False
    then have yx: "pickOrder y x" using pickOrder_total [of x y] by (simp add: compare_pickOrder)
    then show ?thesis using False Cons by (auto simp: set_sortInsert)
  qed
qed

lemma sorted_arraySort: "sorted_wrt pickOrder (arraySort compareIntersects xs)"
  by (induction xs) (simp_all add: sorted_sortInsert)

subsection \<open>The selected element\<close>

lemma firstResolved_find:
  "firstResolved xs =
     (case find (\<lambda>i. findGlobalId (object i) \<noteq> None) xs of
        None \<Rightarrow> None | Some i \<Rightarrow> findGlobalId (object i))"
  by (induction xs) (auto split: option.splits)

lemma firstOpaque_all_transparent:
  "\<forall>i \<in> set xs. isTransparent (object i) \<Longrightarrow> firstOpaque xs = None"
  by (induction xs) (auto split: option.splits)

text \<open>On a sorted array the two loops together find the first candidate that resolves.\<close>

lemma two_loops_sorted:
  "sorted_wrt pickOrder xs \<Longrightarrow>
   (case firstOpaque xs of Some g \<Rightarrow> Some g | None \<Rightarrow> firstResolved xs) = firstResolved xs"
proof (induction xs)
  case Nil
  then show ?case by simp
next
  case (Cons i rest)
  show ?case
  proof (cases "findGlobalId (object i)")
    case None
    then show ?thesis using Cons by (simp split: option.splits)
  next
    case (Some g)
    show ?thesis
    proof (cases "isTransparent (object i)")
      case False
      then show ?thesis using Some by simp
    next
      case True
      then have "\<forall>j \<in> set rest. isTransparent (object j)"
        using Cons.prems by (auto simp: pickOrder_def)
      then have "firstOpaque rest = None" by (rule firstOpaque_all_transparent)
      then show ?thesis using Some True by simp
    qed
  qed
qed

lemma findGlobalId_truthy: "findGlobalId n = Some g \<Longrightarrow> g \<noteq> []"
  by (induction n rule: findGlobalId.induct) (auto split: option.splits if_splits)

text \<open>
  C4. The sorted candidates are a permutation of the intersections found, ordered opaque
  before translucent and then by ascending distance. The handler selects the
  \<^verbatim>\<open>globalId\<close> that \<^verbatim>\<open>findGlobalId\<close> resolves, walking up the parents, for the first
  sorted candidate that resolves one; it selects nothing (and raises nothing) when no
  candidate resolves, in particular when there is no intersection.
\<close>

theorem pick_first_resolved:
  "mset (arraySort compareIntersects found) = mset found
   \<and> sorted_wrt pickOrder (arraySort compareIntersects found)
   \<and> handleModelClick True found =
       (case find (\<lambda>i. findGlobalId (object i) \<noteq> None) (arraySort compareIntersects found) of
          None \<Rightarrow> None
        | Some i \<Rightarrow> findGlobalId (object i))
   \<and> handleModelClick ready [] = None"
proof -
  have "handleModelClick True found = firstResolved (arraySort compareIntersects found)"
  proof (cases "arraySort compareIntersects found")
    case Nil
    then show ?thesis by (simp add: handleModelClick_def)
  next
    case (Cons a list)
    have "(case firstOpaque (arraySort compareIntersects found) of
             Some g \<Rightarrow> Some g | None \<Rightarrow> firstResolved (arraySort compareIntersects found))
          = firstResolved (arraySort compareIntersects found)"
      using sorted_arraySort by (rule two_loops_sorted)
    moreover have "0 < length (arraySort compareIntersects found)" using Cons by simp
    ultimately show ?thesis
      by (simp only: handleModelClick_def Let_def not_True_eq_False if_False if_True)
  qed
  then show ?thesis
    by (simp add: mset_arraySort sorted_arraySort firstResolved_find handleModelClick_def)
qed

text \<open>
  A translucent window in front of a wall: the ray hits the window first, then an
  untagged part whose parent is the wall tagged \<^verbatim>\<open>A\<close>.
\<close>

definition wallNode :: sceneNode where
  "wallNode = SceneNode (Some ''A'') (Some (newMaterial (ColorHex 0x4ecdc4))) None"

definition wallPart :: sceneNode where
  "wallPart = SceneNode None (Some (newMaterial (ColorHex 0x4ecdc4))) (Some wallNode)"

definition windowNode :: sceneNode where
  "windowNode =
     SceneNode (Some ''W'')
       (Some \<lparr>color = ColorHex 0x54a000, transparent = True, opacity = 0.7\<rparr>) None"

theorem pick_first_resolved_witness:
  "arraySort compareIntersects
     [\<lparr>distance = 1, object = windowNode\<rparr>, \<lparr>distance = 5, object = wallPart\<rparr>]
     = [\<lparr>distance = 5, object = wallPart\<rparr>, \<lparr>distance = 1, object = windowNode\<rparr>]
   \<and> handleModelClick True
       [\<lparr>distance = 1, object = windowNode\<rparr>, \<lparr>distance = 5, object = wallPart\<rparr>] = Some ''A''"
  using pick_first_resolved
    [of "[\<lparr>distance = 1, object = windowNode\<rparr>, \<lparr>distance = 5, object = wallPart\<rparr>]" True]
  by (simp add: compareIntersects_def isTransparent_def wallPart_def wallNode_def
      windowNode_def newMaterial_def)

section \<open>Highlighting (EventManager.highlightObject, clearHighlight)\<close>

text \<open>
  The scene graph is a tree of objects, each with its identity and its children. What the
  handlers read and write of an object, \<^verbatim>\<open>userData.globalId\<close>,
  \<^verbatim>\<open>userData.isHighlighted\<close>, \<^verbatim>\<open>userData.originalMaterial\<close> and \<^verbatim>\<open>material\<close> (a
  group has none), is kept in a store indexed by the identity. A material is a value:
  \<^verbatim>\<open>clone()\<close> copies it.
\<close>

datatype object3dTree = Object3D (objId: nat) (objChildren: "object3dTree list")

record objectState =
  os_globalId :: "string option"
  isHighlighted :: bool
  originalMaterial :: "material option"
  liveMaterial :: "material option"

type_synonym objectStore = "nat \<Rightarrow> objectState"

text \<open>The objects of a tree, in the order the recursive walks visit them.\<close>

fun treeIds :: "object3dTree \<Rightarrow> nat list" where
  "treeIds (Object3D i cs) = i # concat (map treeIds cs)"

fun findInChildren :: "objectStore \<Rightarrow> string \<Rightarrow> object3dTree \<Rightarrow> nat list" where
  "findInChildren h gid (Object3D i cs) =
     (if os_globalId (h i) = Some gid then [i] else [])
     @ concat (map (findInChildren h gid) cs)"

definition findAllObjectsByGlobalId :: "objectStore \<Rightarrow> string \<Rightarrow> object3dTree \<Rightarrow> nat list" where
  "findAllObjectsByGlobalId h gid rootObject = findInChildren h gid rootObject"

text \<open>
  \<^verbatim>\<open>highlightSingleObject\<close>. \<^verbatim>\<open>targetObject.material.clone()\<close> throws a
  \<^verbatim>\<open>TypeError\<close> for an object without a material, after \<^verbatim>\<open>isHighlighted\<close> was set.
  The two branches on \<^verbatim>\<open>isWireframeActive\<close> are the same in the source.
\<close>

definition highlightSingleObject ::
  "bool \<Rightarrow> nat \<Rightarrow> objectStore \<Rightarrow> objectStore completion" where
  "highlightSingleObject isWireframeActive targetObject h =
     (let o1 = (h targetObject)\<lparr>isHighlighted := True\<rparr>
      in case liveMaterial o1 of
        None \<Rightarrow> Abrupt TypeError (h(targetObject := o1))
      | Some m \<Rightarrow>
          (let o2 = (case originalMaterial o1 of
                       None \<Rightarrow> o1\<lparr>originalMaterial := Some m\<rparr>
                     | Some saved \<Rightarrow> o1)
           in if isWireframeActive
              then Normal (h(targetObject :=
                     o2\<lparr>liveMaterial := Some (m\<lparr>color := ColorHex 0x00ff88\<rparr>)\<rparr>))
              else Normal (h(targetObject :=
                     o2\<lparr>liveMaterial := Some (m\<lparr>color := ColorHex 0x00ff88\<rparr>)\<rparr>))))"

text \<open>\<^verbatim>\<open>clearHighlight\<close>: what \<^verbatim>\<open>clearInChildren\<close> does to one object, and the walk.\<close>

definition clearObject :: "objectState \<Rightarrow> objectState" where
  "clearObject ob =
     (if isHighlighted ob then
        (let o1 = ob\<lparr>isHighlighted := False\<rparr>
         in case originalMaterial o1 of
              Some saved \<Rightarrow> o1\<lparr>liveMaterial := Some saved\<rparr>
            | None \<Rightarrow> o1)
      else ob)"

fun clearInChildren :: "object3dTree \<Rightarrow> objectStore \<Rightarrow> objectStore" where
  "clearInChildren (Object3D i cs) h =
     foldl (\<lambda>acc child. clearInChildren child acc) (h(i := clearObject (h i))) cs"

definition clearHighlight :: "object3dTree option \<Rightarrow> objectStore \<Rightarrow> objectStore" where
  "clearHighlight sceneRoot h =
     (case sceneRoot of None \<Rightarrow> h | Some rootObject \<Rightarrow> clearInChildren rootObject h)"

text \<open>\<^verbatim>\<open>highlightObject\<close>: clear, find every object with the id, highlight each.\<close>

definition highlightObject ::
  "bool \<Rightarrow> string \<Rightarrow> object3dTree option \<Rightarrow> objectStore \<Rightarrow> objectStore completion" where
  "highlightObject isWireframeActive gid sceneRoot h =
     (case sceneRoot of
        None \<Rightarrow> Normal h
      | Some rootObject \<Rightarrow>
          (let h1 = clearHighlight sceneRoot h;
               targetObjects = findAllObjectsByGlobalId h1 gid rootObject
           in if length targetObjects > 0
              then foldl (\<lambda>acc targetObject.
                            andThen acc (highlightSingleObject isWireframeActive targetObject))
                     (Normal h1) targetObjects
              else Normal h1))"

subsection \<open>The walks, object by object\<close>

lemma clearObject_idem [simp]: "clearObject (clearObject ob) = clearObject ob"
  by (simp add: clearObject_def Let_def split: option.splits)

lemma clearObject_globalId [simp]: "os_globalId (clearObject ob) = os_globalId ob"
  by (simp add: clearObject_def Let_def split: option.splits)

lemma clearObject_not_highlighted [simp]: "\<not> isHighlighted (clearObject ob)"
  by (simp add: clearObject_def Let_def split: option.splits)

lemma clearObject_material:
  "liveMaterial ob \<noteq> None \<Longrightarrow> liveMaterial (clearObject ob) \<noteq> None"
  by (simp add: clearObject_def Let_def split: option.splits)

lemma clear_children_apply:
  assumes "\<And>c acc. c \<in> set cs \<Longrightarrow>
             clearInChildren c acc = (\<lambda>j. if j \<in> set (treeIds c) then clearObject (acc j) else acc j)"
  shows "foldl (\<lambda>acc child. clearInChildren child acc) h cs
           = (\<lambda>j. if j \<in> set (concat (map treeIds cs)) then clearObject (h j) else h j)"
  using assms
proof (induction cs arbitrary: h)
  case Nil
  then show ?case by simp
next
  case (Cons c cs)
  have c: "clearInChildren c h = (\<lambda>j. if j \<in> set (treeIds c) then clearObject (h j) else h j)"
    using Cons.prems by simp
  have "foldl (\<lambda>acc child. clearInChildren child acc) h (c # cs)
        = foldl (\<lambda>acc child. clearInChildren child acc) (clearInChildren c h) cs"
    by simp
  also have "\<dots> = (\<lambda>j. if j \<in> set (concat (map treeIds cs))
                        then clearObject (clearInChildren c h j) else clearInChildren c h j)"
    using Cons.IH [of "clearInChildren c h"] Cons.prems by simp
  also have "\<dots> = (\<lambda>j. if j \<in> set (concat (map treeIds (c # cs)))
                        then clearObject (h j) else h j)"
    by (auto simp: c fun_eq_iff)
  finally show ?case .
qed

text \<open>\<^verbatim>\<open>clearInChildren\<close> applies \<open>clearObject\<close> to every object of the tree.\<close>

lemma clearInChildren_apply:
  "clearInChildren t h = (\<lambda>j. if j \<in> set (treeIds t) then clearObject (h j) else h j)"
proof (induction t h rule: clearInChildren.induct)
  case (1 i cs h)
  have "foldl (\<lambda>acc child. clearInChildren child acc) (h(i := clearObject (h i))) cs
        = (\<lambda>j. if j \<in> set (concat (map treeIds cs))
                then clearObject ((h(i := clearObject (h i))) j)
                else (h(i := clearObject (h i))) j)"
    using "1.IH" by (intro clear_children_apply) simp
  then show ?case by (auto simp: fun_eq_iff)
qed

lemma findInChildren_filter:
  "findInChildren h gid t = filter (\<lambda>i. os_globalId (h i) = Some gid) (treeIds t)"
proof (induction t rule: treeIds.induct)
  case (1 i cs)
  have "concat (map (findInChildren h gid) cs)
        = concat (map (\<lambda>c. filter (\<lambda>i. os_globalId (h i) = Some gid) (treeIds c)) cs)"
    using "1.IH" by (intro arg_cong [where f = concat] map_cong) simp_all
  then show ?case by (simp add: filter_concat comp_def)
qed

text \<open>What \<^verbatim>\<open>highlightSingleObject\<close> makes of an object that has a material.\<close>

definition highlightedState :: "objectState \<Rightarrow> objectState" where
  "highlightedState ob =
     (case liveMaterial ob of
        None \<Rightarrow> ob\<lparr>isHighlighted := True\<rparr>
      | Some m \<Rightarrow>
          ob\<lparr>isHighlighted := True,
             originalMaterial := (case originalMaterial ob of None \<Rightarrow> Some m | Some saved \<Rightarrow> Some saved),
             liveMaterial := Some (m\<lparr>color := ColorHex 0x00ff88\<rparr>)\<rparr>)"

lemma highlightSingleObject_state:
  "liveMaterial (h i) \<noteq> None \<Longrightarrow>
   highlightSingleObject w i h = Normal (h(i := highlightedState (h i)))"
  by (auto simp: highlightSingleObject_def highlightedState_def Let_def split: option.splits)

lemma highlightedState_idem:
  "liveMaterial ob \<noteq> None \<Longrightarrow> highlightedState (highlightedState ob) = highlightedState ob"
  by (auto simp: highlightedState_def split: option.splits)

lemma highlightedState_material:
  "liveMaterial ob \<noteq> None \<Longrightarrow> liveMaterial (highlightedState ob) \<noteq> None"
  by (auto simp: highlightedState_def split: option.splits)

lemma highlight_each:
  assumes "\<forall>i \<in> set ts. liveMaterial (h i) \<noteq> None"
  shows "foldl (\<lambda>acc targetObject. andThen acc (highlightSingleObject w targetObject))
           (Normal h) ts
         = Normal (\<lambda>j. if j \<in> set ts then highlightedState (h j) else h j)"
  using assms
proof (induction ts arbitrary: h)
  case Nil
  then show ?case by simp
next
  case (Cons t ts)
  let ?h1 = "h(t := highlightedState (h t))"
  have t: "liveMaterial (h t) \<noteq> None" using Cons.prems by simp
  have rest: "\<forall>i \<in> set ts. liveMaterial (?h1 i) \<noteq> None"
    using Cons.prems highlightedState_material [OF t] by auto
  have "foldl (\<lambda>acc targetObject. andThen acc (highlightSingleObject w targetObject))
           (Normal h) (t # ts)
        = foldl (\<lambda>acc targetObject. andThen acc (highlightSingleObject w targetObject))
           (Normal ?h1) ts"
    using t by (simp add: highlightSingleObject_state)
  also have "\<dots> = Normal (\<lambda>j. if j \<in> set ts then highlightedState (?h1 j) else ?h1 j)"
    using Cons.IH [OF rest] .
  also have "(\<lambda>j. if j \<in> set ts then highlightedState (?h1 j) else ?h1 j)
        = (\<lambda>j. if j \<in> set (t # ts) then highlightedState (h j) else h j)"
    using t by (auto simp: fun_eq_iff highlightedState_idem)
  finally show ?case .
qed

text \<open>\<^verbatim>\<open>highlightObject\<close>, when every object with the id has a material.\<close>

lemma highlightObject_apply:
  assumes "\<forall>i \<in> set (treeIds t). os_globalId (h i) = Some gid \<longrightarrow> liveMaterial (h i) \<noteq> None"
  shows "highlightObject w gid (Some t) h
         = Normal (\<lambda>j. if j \<in> set (treeIds t)
                        then (if os_globalId (h j) = Some gid
                              then highlightedState (clearObject (h j))
                              else clearObject (h j))
                        else h j)"
proof -
  let ?h1 = "clearHighlight (Some t) h"
  let ?ts = "findAllObjectsByGlobalId ?h1 gid t"
  have h1: "?h1 = (\<lambda>j. if j \<in> set (treeIds t) then clearObject (h j) else h j)"
    by (simp add: clearHighlight_def clearInChildren_apply)
  have ts: "set ?ts = {i \<in> set (treeIds t). os_globalId (h i) = Some gid}"
    by (auto simp: findAllObjectsByGlobalId_def findInChildren_filter h1)
  have mat: "\<forall>i \<in> set ?ts. liveMaterial (?h1 i) \<noteq> None"
    using assms ts by (auto simp: h1 clearObject_material)
  have "highlightObject w gid (Some t) h
        = foldl (\<lambda>acc targetObject. andThen acc (highlightSingleObject w targetObject))
            (Normal ?h1) ?ts"
    by (cases ?ts) (simp_all add: highlightObject_def Let_def)
  also have "\<dots> = Normal (\<lambda>j. if j \<in> set ?ts then highlightedState (?h1 j) else ?h1 j)"
    using mat by (rule highlight_each)
  also have "(\<lambda>j. if j \<in> set ?ts then highlightedState (?h1 j) else ?h1 j)
        = (\<lambda>j. if j \<in> set (treeIds t)
                        then (if os_globalId (h j) = Some gid
                              then highlightedState (clearObject (h j))
                              else clearObject (h j))
                        else h j)"
    unfolding ts by (auto simp: fun_eq_iff h1)
  finally show ?thesis .
qed

subsection \<open>Highlight, then clear\<close>

text \<open>
  An object is settled when it is highlighted, or has no saved material, or its saved
  material is its live one. A new mesh is settled, and the two handlers keep every object
  settled.
\<close>

definition settled :: "objectState \<Rightarrow> bool" where
  "settled ob \<longleftrightarrow>
     isHighlighted ob \<or> originalMaterial ob = None \<or> originalMaterial ob = liveMaterial ob"

lemma settled_clearObject: "settled ob \<Longrightarrow> settled (clearObject ob)"
  by (auto simp: settled_def clearObject_def Let_def split: option.splits)

lemma settled_highlightedState: "settled (highlightedState ob)"
  by (auto simp: settled_def highlightedState_def split: option.splits)

lemma settled_clearHighlight: "settled (h i) \<Longrightarrow> settled (clearHighlight sceneRoot h i)"
  by (cases sceneRoot) (simp_all add: clearHighlight_def clearInChildren_apply settled_clearObject)

lemma settled_highlightObject:
  assumes "\<forall>i \<in> set (treeIds t). os_globalId (h i) = Some gid \<longrightarrow> liveMaterial (h i) \<noteq> None"
    and "settled (h i)"
  shows "settled (stateOf (highlightObject w gid (Some t) h) i)"
  using assms(2)
  by (simp add: highlightObject_apply [OF assms(1)] settled_clearObject settled_highlightedState)

text \<open>One object with a material: cleared, highlighted, cleared again.\<close>

lemma round_trip_object:
  assumes "liveMaterial ob \<noteq> None" and "settled ob"
  shows "liveMaterial (clearObject (highlightedState (clearObject ob)))
           = liveMaterial (clearObject ob)"
    and "liveMaterial (highlightedState (clearObject ob))
           = map_option (\<lambda>m. m\<lparr>color := ColorHex 0x00ff88\<rparr>) (liveMaterial (clearObject ob))"
    and "originalMaterial (highlightedState (clearObject ob))
           = (case originalMaterial ob of Some saved \<Rightarrow> Some saved | None \<Rightarrow> liveMaterial ob)"
    and "isHighlighted (highlightedState (clearObject ob))"
    and "\<not> isHighlighted (clearObject (highlightedState (clearObject ob)))"
    and "\<not> isHighlighted ob \<longrightarrow>
           liveMaterial (clearObject (highlightedState (clearObject ob))) = liveMaterial ob"
  using assms
  by (auto simp: settled_def clearObject_def highlightedState_def Let_def split: option.splits)

text \<open>
  C3. Let every object of the scene tagged with the id have a material and be settled.
  Then \<^verbatim>\<open>highlightObject\<close> ends normally, and for every object tagged with the id: it
  is highlighted; its material is the one it shows when not highlighted, with the
  highlight colour \<^verbatim>\<open>0x00ff88\<close> and nothing else changed; its saved material is the one
  saved before if there was one (it is saved at most once), else the material it had; and
  after the following \<^verbatim>\<open>clearHighlight\<close> it is not highlighted and has again the material
  it shows when not highlighted, which is the material it had before \<^verbatim>\<open>highlightObject\<close>
  if it was not highlighted then.
\<close>

theorem highlight_clear_round_trip:
  assumes "\<forall>i \<in> set (treeIds t). os_globalId (h i) = Some gid \<longrightarrow>
             liveMaterial (h i) \<noteq> None \<and> settled (h i)"
  shows "\<exists>h1. highlightObject w gid (Some t) h = Normal h1
           \<and> (\<forall>i \<in> set (treeIds t). os_globalId (h i) = Some gid \<longrightarrow>
                 isHighlighted (h1 i)
               \<and> liveMaterial (h1 i)
                   = map_option (\<lambda>m. m\<lparr>color := ColorHex 0x00ff88\<rparr>)
                       (liveMaterial (clearHighlight (Some t) h i))
               \<and> originalMaterial (h1 i)
                   = (case originalMaterial (h i) of
                        Some saved \<Rightarrow> Some saved | None \<Rightarrow> liveMaterial (h i))
               \<and> \<not> isHighlighted (clearHighlight (Some t) h1 i)
               \<and> liveMaterial (clearHighlight (Some t) h1 i)
                   = liveMaterial (clearHighlight (Some t) h i)
               \<and> (\<not> isHighlighted (h i) \<longrightarrow>
                     liveMaterial (clearHighlight (Some t) h1 i) = liveMaterial (h i)))"
proof -
  let ?h1 = "\<lambda>j. if j \<in> set (treeIds t)
                  then (if os_globalId (h j) = Some gid
                        then highlightedState (clearObject (h j))
                        else clearObject (h j))
                  else h j"
  have mat: "\<forall>i \<in> set (treeIds t). os_globalId (h i) = Some gid \<longrightarrow> liveMaterial (h i) \<noteq> None"
    using assms by blast
  have run: "highlightObject w gid (Some t) h = Normal ?h1"
    using mat by (rule highlightObject_apply)
  have "isHighlighted (?h1 i)
      \<and> liveMaterial (?h1 i)
          = map_option (\<lambda>m. m\<lparr>color := ColorHex 0x00ff88\<rparr>)
              (liveMaterial (clearHighlight (Some t) h i))
      \<and> originalMaterial (?h1 i)
          = (case originalMaterial (h i) of
               Some saved \<Rightarrow> Some saved | None \<Rightarrow> liveMaterial (h i))
      \<and> \<not> isHighlighted (clearHighlight (Some t) ?h1 i)
      \<and> liveMaterial (clearHighlight (Some t) ?h1 i)
          = liveMaterial (clearHighlight (Some t) h i)
      \<and> (\<not> isHighlighted (h i) \<longrightarrow>
            liveMaterial (clearHighlight (Some t) ?h1 i) = liveMaterial (h i))"
    if i: "i \<in> set (treeIds t)" and g: "os_globalId (h i) = Some gid" for i
  proof -
    have m: "liveMaterial (h i) \<noteq> None" and s: "settled (h i)" using assms i g by blast+
    have a: "?h1 i = highlightedState (clearObject (h i))" using i g by simp
    have b: "clearHighlight (Some t) ?h1 i = clearObject (highlightedState (clearObject (h i)))"
      using i g by (simp add: clearHighlight_def clearInChildren_apply)
    have c: "clearHighlight (Some t) h i = clearObject (h i)"
      using i by (simp add: clearHighlight_def clearInChildren_apply)
    show ?thesis
      unfolding a b c using round_trip_object [OF m s] by blast
  qed
  with run show ?thesis by blast
qed

text \<open>
  A scene with two meshes tagged \<^verbatim>\<open>E1\<close>, one of them below a mesh tagged \<^verbatim>\<open>E2\<close>.
\<close>

definition demoScene :: object3dTree where
  "demoScene = Object3D 0 [Object3D 1 [], Object3D 2 [Object3D 3 []]]"

definition demoStore :: objectStore where
  "demoStore =
     (\<lambda>i. \<lparr>os_globalId = None, isHighlighted = False, originalMaterial = None,
            liveMaterial = None\<rparr>)
     (1 := \<lparr>os_globalId = Some ''E1'', isHighlighted = False, originalMaterial = None,
            liveMaterial = Some (newMaterial (ColorStyle ''#FF0000''))\<rparr>,
      2 := \<lparr>os_globalId = Some ''E2'', isHighlighted = False, originalMaterial = None,
            liveMaterial = Some (newMaterial (ColorHex 0x4ecdc4))\<rparr>,
      3 := \<lparr>os_globalId = Some ''E1'', isHighlighted = False, originalMaterial = None,
            liveMaterial = Some \<lparr>color = ColorHex 0x54a000, transparent = True, opacity = 0.7\<rparr>\<rparr>)"

theorem highlight_clear_round_trip_witness:
  "\<exists>h1. highlightObject False ''E1'' (Some demoScene) demoStore = Normal h1
      \<and> liveMaterial (h1 1)
          = Some \<lparr>color = ColorHex 0x00ff88, transparent = False, opacity = 1\<rparr>
      \<and> liveMaterial (h1 3)
          = Some \<lparr>color = ColorHex 0x00ff88, transparent = True, opacity = 0.7\<rparr>
      \<and> liveMaterial (clearHighlight (Some demoScene) h1 1) = liveMaterial (demoStore 1)
      \<and> liveMaterial (clearHighlight (Some demoScene) h1 3) = liveMaterial (demoStore 3)"
proof -
  have ids: "set (treeIds demoScene) = {0, 1, 2, 3}" by (auto simp: demoScene_def)
  have pre: "\<forall>i \<in> set (treeIds demoScene). os_globalId (demoStore i) = Some ''E1'' \<longrightarrow>
               liveMaterial (demoStore i) \<noteq> None \<and> settled (demoStore i)"
    unfolding ids by (simp add: demoStore_def settled_def)
  have c1: "clearHighlight (Some demoScene) demoStore 1 = demoStore 1"
    and c3: "clearHighlight (Some demoScene) demoStore 3 = demoStore 3"
    by (simp_all add: clearHighlight_def clearInChildren_apply clearObject_def demoStore_def)
  from highlight_clear_round_trip [OF pre, of False] obtain h1 where
    r: "highlightObject False ''E1'' (Some demoScene) demoStore = Normal h1"
    and a: "\<forall>i \<in> set (treeIds demoScene). os_globalId (demoStore i) = Some ''E1'' \<longrightarrow>
                 isHighlighted (h1 i)
               \<and> liveMaterial (h1 i)
                   = map_option (\<lambda>m. m\<lparr>color := ColorHex 0x00ff88\<rparr>)
                       (liveMaterial (clearHighlight (Some demoScene) demoStore i))
               \<and> originalMaterial (h1 i)
                   = (case originalMaterial (demoStore i) of
                        Some saved \<Rightarrow> Some saved | None \<Rightarrow> liveMaterial (demoStore i))
               \<and> \<not> isHighlighted (clearHighlight (Some demoScene) h1 i)
               \<and> liveMaterial (clearHighlight (Some demoScene) h1 i)
                   = liveMaterial (clearHighlight (Some demoScene) demoStore i)
               \<and> (\<not> isHighlighted (demoStore i) \<longrightarrow>
                     liveMaterial (clearHighlight (Some demoScene) h1 i)
                       = liveMaterial (demoStore i))"
    by blast
  have "1 \<in> set (treeIds demoScene)" "3 \<in> set (treeIds demoScene)"
    "os_globalId (demoStore 1) = Some ''E1''" "os_globalId (demoStore 3) = Some ''E1''"
    unfolding ids by (simp_all add: demoStore_def)
  with a have "liveMaterial (h1 1)
                   = map_option (\<lambda>m. m\<lparr>color := ColorHex 0x00ff88\<rparr>)
                       (liveMaterial (clearHighlight (Some demoScene) demoStore 1))"
    "liveMaterial (h1 3)
                   = map_option (\<lambda>m. m\<lparr>color := ColorHex 0x00ff88\<rparr>)
                       (liveMaterial (clearHighlight (Some demoScene) demoStore 3))"
    "liveMaterial (clearHighlight (Some demoScene) h1 1)
                   = liveMaterial (clearHighlight (Some demoScene) demoStore 1)"
    "liveMaterial (clearHighlight (Some demoScene) h1 3)
                   = liveMaterial (clearHighlight (Some demoScene) demoStore 3)"
    by blast+
  then have "liveMaterial (h1 1)
          = Some \<lparr>color = ColorHex 0x00ff88, transparent = False, opacity = 1\<rparr>"
    "liveMaterial (h1 3)
          = Some \<lparr>color = ColorHex 0x00ff88, transparent = True, opacity = 0.7\<rparr>"
    "liveMaterial (clearHighlight (Some demoScene) h1 1) = liveMaterial (demoStore 1)"
    "liveMaterial (clearHighlight (Some demoScene) h1 3) = liveMaterial (demoStore 3)"
    unfolding c1 c3 by (simp_all add: demoStore_def newMaterial_def)
  with r show ?thesis by blast
qed

section \<open>Disposal (ThreeJSViewer.dispose)\<close>

text \<open>
  The browser side is modelled by the table of registered listeners and the list of
  pending animation-frame requests. The event targets are \<^verbatim>\<open>window\<close>, \<^verbatim>\<open>document\<close>,
  the viewer's container and the canvas \<^verbatim>\<open>renderer.domElement\<close> inside it. A callback is
  known by the object that made it and the event it was made for: the arrow functions of
  \<^verbatim>\<open>EventManager.setupEventListeners\<close> and the bound methods of
  \<^verbatim>\<open>SimpleOrbitControls.setupEventListeners\<close>.
\<close>

datatype eventTarget = Window | Document | Container | DomElement

datatype callback = EventManagerCallback string | ControlsCallback string

record listener =
  onTarget :: eventTarget
  eventType :: string
  handler :: callback

record runtime =
  domListeners :: "listener list"
  eventListeners :: "(eventTarget \<times> (string \<times> callback) list) list"
  animationId :: "nat option"
  pendingFrames :: "nat list"
  nextFrameId :: nat
  rendererPresent :: bool
  rendererDisposals :: nat
  scenePresent :: bool
  ticks :: nat

text \<open>
  \<^verbatim>\<open>element.addEventListener\<close> and \<^verbatim>\<open>element.removeEventListener\<close> of the browser:
  registering the same callback again does nothing; removing takes the callback given.
\<close>

definition domAdd :: "eventTarget \<Rightarrow> string \<Rightarrow> callback \<Rightarrow> runtime \<Rightarrow> runtime" where
  "domAdd t e cb s =
     (let l = \<lparr>onTarget = t, eventType = e, handler = cb\<rparr>
      in if l \<in> set (domListeners s) then s else s\<lparr>domListeners := domListeners s @ [l]\<rparr>)"

definition domRemove :: "eventTarget \<Rightarrow> string \<Rightarrow> callback \<Rightarrow> runtime \<Rightarrow> runtime" where
  "domRemove t e cb s =
     s\<lparr>domListeners :=
         filter (\<lambda>l. l \<noteq> \<lparr>onTarget = t, eventType = e, handler = cb\<rparr>) (domListeners s)\<rparr>"

text \<open>
  \<^verbatim>\<open>EventManager.addEventListener\<close>: registers the handler and stores it in the map of
  maps \<^verbatim>\<open>eventListeners\<close>, element first, event second.
\<close>

definition mapSet :: "'k \<Rightarrow> 'v \<Rightarrow> ('k \<times> 'v) list \<Rightarrow> ('k \<times> 'v) list" where
  "mapSet k v m =
     (if k \<in> fst ` set m then map (\<lambda>kv. if fst kv = k then (k, v) else kv) m else m @ [(k, v)])"

definition mapGet :: "'k \<Rightarrow> ('k \<times> 'v) list \<Rightarrow> 'v option" where
  "mapGet k m = map_of m k"

definition addEventListener :: "eventTarget \<Rightarrow> string \<Rightarrow> callback \<Rightarrow> runtime \<Rightarrow> runtime" where
  "addEventListener element event cb s =
     (let s1 = domAdd element event cb s;
          m1 = (if mapGet element (eventListeners s1) = None
                then mapSet element [] (eventListeners s1) else eventListeners s1);
          inner = (case mapGet element m1 of Some im \<Rightarrow> im | None \<Rightarrow> [])
      in s1\<lparr>eventListeners := mapSet element (mapSet event cb inner) m1\<rparr>)"

definition em_setupEventListeners :: "runtime \<Rightarrow> runtime" where
  "em_setupEventListeners s =
     (addEventListener Document ''keyup'' (EventManagerCallback ''keyup'')
     (addEventListener Document ''keydown'' (EventManagerCallback ''keydown'')
     (addEventListener Container ''contextmenu'' (EventManagerCallback ''contextmenu'')
     (addEventListener Container ''wheel'' (EventManagerCallback ''wheel'')
     (addEventListener Container ''mouseup'' (EventManagerCallback ''mouseup'')
     (addEventListener Container ''mousemove'' (EventManagerCallback ''mousemove'')
     (addEventListener Container ''mousedown'' (EventManagerCallback ''mousedown'')
     (addEventListener Window ''resize'' (EventManagerCallback ''resize'') s))))))))"

text \<open>
  \<^verbatim>\<open>SimpleOrbitControls.setupEventListeners\<close>: the bound methods go to the browser
  only; the controls keep no reference to them.
\<close>

definition oc_setupEventListeners :: "runtime \<Rightarrow> runtime" where
  "oc_setupEventListeners s =
     (domAdd Document ''keyup'' (ControlsCallback ''keyup'')
     (domAdd DomElement ''contextmenu'' (ControlsCallback ''contextmenu'')
     (domAdd DomElement ''wheel'' (ControlsCallback ''wheel'')
     (domAdd DomElement ''mouseup'' (ControlsCallback ''mouseup'')
     (domAdd DomElement ''mousemove'' (ControlsCallback ''mousemove'')
     (domAdd DomElement ''mousedown'' (ControlsCallback ''mousedown'') s))))))"

text \<open>\<^verbatim>\<open>EventManager.removeAllEventListeners\<close>.\<close>

definition removeAllEventListeners :: "runtime \<Rightarrow> runtime" where
  "removeAllEventListeners s =
     (foldl (\<lambda>st (element, elementListeners).
               foldl (\<lambda>st2 (event, cb). domRemove element event cb st2) st elementListeners)
        s (eventListeners s))
     \<lparr>eventListeners := []\<rparr>"

text \<open>
  The render loop of \<^verbatim>\<open>SceneManager\<close>. \<^verbatim>\<open>animate\<close> requests the next frame first and
  then renders; a frame of the browser runs the callbacks that were pending when it
  began. A request id is a positive number.
\<close>

definition animate :: "runtime \<Rightarrow> runtime" where
  "animate s =
     s\<lparr>animationId := Some (nextFrameId s),
       pendingFrames := pendingFrames s @ [nextFrameId s],
       nextFrameId := nextFrameId s + 1,
       ticks := ticks s + 1\<rparr>"

definition browserFrame :: "runtime \<Rightarrow> runtime" where
  "browserFrame s = foldl (\<lambda>st request. animate st) (s\<lparr>pendingFrames := []\<rparr>) (pendingFrames s)"

definition stopAnimation :: "runtime \<Rightarrow> runtime" where
  "stopAnimation s =
     (case animationId s of
        None \<Rightarrow> s
      | Some request \<Rightarrow>
          if request = 0 then s
          else s\<lparr>pendingFrames := filter (\<lambda>r. r \<noteq> request) (pendingFrames s),
                 animationId := None\<rparr>)"

definition sm_dispose :: "runtime \<Rightarrow> runtime" where
  "sm_dispose s =
     (let s1 = stopAnimation s;
          s2 = (if rendererPresent s1
                then s1\<lparr>rendererDisposals := rendererDisposals s1 + 1, rendererPresent := False\<rparr>
                else s1)
      in if scenePresent s2 then s2\<lparr>scenePresent := False\<rparr> else s2)"

text \<open>\<^verbatim>\<open>ThreeJSViewer.dispose\<close>, for a viewer that has its managers.\<close>

definition dispose :: "runtime \<Rightarrow> runtime" where
  "dispose s = removeAllEventListeners (sm_dispose s)"

text \<open>
  What \<^verbatim>\<open>ThreeJSViewer.init\<close> does to the browser: the constructor of the controls
  registers their listeners, then the event manager registers its own, then
  \<^verbatim>\<open>startAnimation\<close> calls \<^verbatim>\<open>animate\<close>.
\<close>

definition beforeInit :: runtime where
  "beforeInit =
     \<lparr>domListeners = [], eventListeners = [], animationId = None, pendingFrames = [],
      nextFrameId = 1, rendererPresent = False, rendererDisposals = 0, scenePresent = False,
      ticks = 0\<rparr>"

definition init :: "runtime \<Rightarrow> runtime" where
  "init s =
     animate (em_setupEventListeners (oc_setupEventListeners
       (s\<lparr>rendererPresent := True, scenePresent := True\<rparr>)))"

text \<open>
  The callbacks an event of type \<open>e\<close> dispatched at \<open>t\<close> runs: those registered for \<open>e\<close>
  on \<open>t\<close> and on the elements above it, innermost first.
\<close>

fun propagationPath :: "eventTarget \<Rightarrow> eventTarget list" where
  "propagationPath DomElement = [DomElement, Container, Document, Window]"
| "propagationPath Container = [Container, Document, Window]"
| "propagationPath Document = [Document, Window]"
| "propagationPath Window = [Window]"

definition dispatchEvent :: "eventTarget \<Rightarrow> string \<Rightarrow> runtime \<Rightarrow> callback list" where
  "dispatchEvent t e s =
     concat (map (\<lambda>el. map handler
                          (filter (\<lambda>l. onTarget l = el \<and> eventType l = e) (domListeners s)))
               (propagationPath t))"

subsection \<open>What dispose stops and what it leaves\<close>

lemma domRemove_fold_inner:
  "\<exists>d. foldl (\<lambda>st2 (event, cb). domRemove element event cb st2) st evs = st\<lparr>domListeners := d\<rparr>"
proof (induction evs arbitrary: st)
  case Nil
  have "st = st\<lparr>domListeners := domListeners st\<rparr>" by simp
  then show ?case by (metis foldl_Nil)
next
  case (Cons ev evs)
  obtain event cb where ev: "ev = (event, cb)" by (cases ev)
  from Cons [of "domRemove element event cb st"] obtain d where
    "foldl (\<lambda>st2 (event, cb). domRemove element event cb st2) (domRemove element event cb st) evs
       = (domRemove element event cb st)\<lparr>domListeners := d\<rparr>"
    by blast
  then have "foldl (\<lambda>st2 (event, cb). domRemove element event cb st2) st (ev # evs)
       = st\<lparr>domListeners := d\<rparr>"
    by (simp add: ev domRemove_def)
  then show ?case by blast
qed

lemma domRemove_fold_outer:
  "\<exists>d. foldl (\<lambda>st (element, elementListeners).
               foldl (\<lambda>st2 (event, cb). domRemove element event cb st2) st elementListeners)
          st els = st\<lparr>domListeners := d\<rparr>"
proof (induction els arbitrary: st)
  case Nil
  have "st = st\<lparr>domListeners := domListeners st\<rparr>" by simp
  then show ?case by (metis foldl_Nil)
next
  case (Cons el els)
  obtain element evs where el: "el = (element, evs)" by (cases el)
  obtain d1 where d1: "foldl (\<lambda>st2 (event, cb). domRemove element event cb st2) st evs
                         = st\<lparr>domListeners := d1\<rparr>"
    using domRemove_fold_inner by blast
  from Cons [of "st\<lparr>domListeners := d1\<rparr>"] obtain d where
    "foldl (\<lambda>st (element, elementListeners).
               foldl (\<lambda>st2 (event, cb). domRemove element event cb st2) st elementListeners)
          (st\<lparr>domListeners := d1\<rparr>) els = st\<lparr>domListeners := d1\<rparr>\<lparr>domListeners := d\<rparr>"
    by blast
  then have "foldl (\<lambda>st (element, elementListeners).
               foldl (\<lambda>st2 (event, cb). domRemove element event cb st2) st elementListeners)
          st (el # els) = st\<lparr>domListeners := d\<rparr>"
    by (simp add: el d1)
  then show ?case by blast
qed

text \<open>\<^verbatim>\<open>removeAllEventListeners\<close> touches the listener table and its own map only.\<close>

lemma removeAllEventListeners_frame:
  "\<exists>d. removeAllEventListeners s = s\<lparr>domListeners := d, eventListeners := []\<rparr>"
proof -
  obtain d where "foldl (\<lambda>st (element, elementListeners).
               foldl (\<lambda>st2 (event, cb). domRemove element event cb st2) st elementListeners)
          s (eventListeners s) = s\<lparr>domListeners := d\<rparr>"
    using domRemove_fold_outer by blast
  then show ?thesis by (auto simp: removeAllEventListeners_def)
qed

lemma removeAllEventListeners_empty:
  "eventListeners s = [] \<Longrightarrow> removeAllEventListeners s = s"
  by (simp add: removeAllEventListeners_def)

lemma browserFrame_idle: "pendingFrames s = [] \<Longrightarrow> browserFrame s = s"
  by (simp add: browserFrame_def)

lemma browserFrames_idle: "pendingFrames s = [] \<Longrightarrow> (browserFrame ^^ n) s = s"
  by (induction n) (simp_all add: browserFrame_idle)

lemma sm_dispose_pending:
  assumes "set (pendingFrames s) \<subseteq> set_option (animationId s)" and "0 \<notin> set (pendingFrames s)"
  shows "pendingFrames (sm_dispose s) = []"
proof -
  have "pendingFrames (stopAnimation s) = []"
  proof (cases "animationId s")
    case None
    then show ?thesis using assms by (simp add: stopAnimation_def)
  next
    case (Some r)
    then have sub: "set (pendingFrames s) \<subseteq> {r}" using assms(1) by simp
    show ?thesis
    proof (cases "r = 0")
      case True
      then have "pendingFrames s = []" using sub assms(2) by (cases "pendingFrames s") auto
      then show ?thesis using Some True by (simp add: stopAnimation_def)
    next
      case False
      have "filter (\<lambda>x. x \<noteq> r) (pendingFrames s) = []"
        using sub by (auto simp: filter_empty_conv)
      then show ?thesis using Some False by (simp add: stopAnimation_def)
    qed
  qed
  then show ?thesis by (simp add: sm_dispose_def Let_def)
qed

text \<open>
  After \<^verbatim>\<open>dispose\<close> no frame runs the render loop again: the pending request is the one
  \<^verbatim>\<open>animationId\<close> names, and \<^verbatim>\<open>stopAnimation\<close> cancels it.
\<close>

lemma no_ticks_after_dispose:
  assumes "set (pendingFrames s) \<subseteq> set_option (animationId s)" and "0 \<notin> set (pendingFrames s)"
  shows "ticks ((browserFrame ^^ n) (dispose s)) = ticks s"
proof -
  obtain d where d: "dispose s = (sm_dispose s)\<lparr>domListeners := d, eventListeners := []\<rparr>"
    using removeAllEventListeners_frame [of "sm_dispose s"] by (auto simp: dispose_def)
  have "pendingFrames (dispose s) = []"
    using sm_dispose_pending [OF assms] by (simp add: d)
  then have "(browserFrame ^^ n) (dispose s) = dispose s" by (rule browserFrames_idle)
  moreover have "ticks (dispose s) = ticks s"
    by (simp add: d sm_dispose_def stopAnimation_def Let_def split: option.splits)
  ultimately show ?thesis by simp
qed

text \<open>A second \<^verbatim>\<open>dispose\<close> changes nothing: the renderer is disposed once.\<close>

lemma dispose_idempotent: "dispose (dispose s) = dispose s"
proof -
  obtain d where d: "dispose s = (sm_dispose s)\<lparr>domListeners := d, eventListeners := []\<rparr>"
    using removeAllEventListeners_frame [of "sm_dispose s"] by (auto simp: dispose_def)
  have "sm_dispose (dispose s) = dispose s"
    unfolding d by (simp add: sm_dispose_def stopAnimation_def Let_def split: option.splits)
  moreover have "eventListeners (dispose s) = []" by (simp add: d)
  ultimately show ?thesis
    using removeAllEventListeners_empty [of "dispose s"] by (simp add: dispose_def)
qed

text \<open>The listener table and the event manager's map, as functions on lists.\<close>

definition addListener :: "listener \<Rightarrow> listener list \<Rightarrow> listener list" where
  "addListener l d = (if l \<in> set d then d else d @ [l])"

definition storeListener ::
  "eventTarget \<Rightarrow> string \<Rightarrow> callback \<Rightarrow> (eventTarget \<times> (string \<times> callback) list) list
     \<Rightarrow> (eventTarget \<times> (string \<times> callback) list) list" where
  "storeListener t e cb m =
     (let m1 = (if mapGet t m = None then mapSet t [] m else m);
          inner = (case mapGet t m1 of Some im \<Rightarrow> im | None \<Rightarrow> [])
      in mapSet t (mapSet e cb inner) m1)"

lemma domAdd_fields [simp]:
  "domListeners (domAdd t e cb s)
     = addListener \<lparr>onTarget = t, eventType = e, handler = cb\<rparr> (domListeners s)"
  "eventListeners (domAdd t e cb s) = eventListeners s"
  "pendingFrames (domAdd t e cb s) = pendingFrames s"
  "nextFrameId (domAdd t e cb s) = nextFrameId s"
  by (simp_all add: domAdd_def addListener_def Let_def)

lemma addEventListener_fields [simp]:
  "domListeners (addEventListener t e cb s)
     = addListener \<lparr>onTarget = t, eventType = e, handler = cb\<rparr> (domListeners s)"
  "eventListeners (addEventListener t e cb s) = storeListener t e cb (eventListeners s)"
  "pendingFrames (addEventListener t e cb s) = pendingFrames s"
  "nextFrameId (addEventListener t e cb s) = nextFrameId s"
  by (simp_all add: addEventListener_def storeListener_def Let_def)

lemma removeAll_inner_dom:
  "domListeners (foldl (\<lambda>st2 (event, cb). domRemove element event cb st2) st evs)
     = foldl (\<lambda>d (event, cb).
                filter (\<lambda>l. l \<noteq> \<lparr>onTarget = element, eventType = event, handler = cb\<rparr>) d)
         (domListeners st) evs"
  by (induction evs arbitrary: st) (auto simp: domRemove_def)

lemma removeAll_outer_dom:
  "domListeners (foldl (\<lambda>st (element, elementListeners).
               foldl (\<lambda>st2 (event, cb). domRemove element event cb st2) st elementListeners)
          st els)
     = foldl (\<lambda>d (element, elementListeners).
                foldl (\<lambda>d2 (event, cb).
                   filter (\<lambda>l. l \<noteq> \<lparr>onTarget = element, eventType = event, handler = cb\<rparr>) d2)
                  d elementListeners)
         (domListeners st) els"
  by (induction els arbitrary: st) (auto simp: removeAll_inner_dom)

lemma dispose_domListeners:
  "domListeners (dispose s)
     = foldl (\<lambda>d (element, elementListeners).
                foldl (\<lambda>d2 (event, cb).
                   filter (\<lambda>l. l \<noteq> \<lparr>onTarget = element, eventType = event, handler = cb\<rparr>) d2)
                  d elementListeners)
         (domListeners s) (eventListeners s)"
proof -
  have "domListeners (sm_dispose s) = domListeners s" "eventListeners (sm_dispose s) = eventListeners s"
    by (simp_all add: sm_dispose_def stopAnimation_def Let_def split: option.splits)
  then show ?thesis
    by (simp add: dispose_def removeAllEventListeners_def removeAll_outer_dom)
qed

definition controlsListeners :: "listener list" where
  "controlsListeners =
     [\<lparr>onTarget = DomElement, eventType = ''mousedown'', handler = ControlsCallback ''mousedown''\<rparr>,
      \<lparr>onTarget = DomElement, eventType = ''mousemove'', handler = ControlsCallback ''mousemove''\<rparr>,
      \<lparr>onTarget = DomElement, eventType = ''mouseup'', handler = ControlsCallback ''mouseup''\<rparr>,
      \<lparr>onTarget = DomElement, eventType = ''wheel'', handler = ControlsCallback ''wheel''\<rparr>,
      \<lparr>onTarget = DomElement, eventType = ''contextmenu'', handler = ControlsCallback ''contextmenu''\<rparr>,
      \<lparr>onTarget = Document, eventType = ''keyup'', handler = ControlsCallback ''keyup''\<rparr>]"

definition eventManagerListeners :: "listener list" where
  "eventManagerListeners =
     [\<lparr>onTarget = Window, eventType = ''resize'', handler = EventManagerCallback ''resize''\<rparr>,
      \<lparr>onTarget = Container, eventType = ''mousedown'', handler = EventManagerCallback ''mousedown''\<rparr>,
      \<lparr>onTarget = Container, eventType = ''mousemove'', handler = EventManagerCallback ''mousemove''\<rparr>,
      \<lparr>onTarget = Container, eventType = ''mouseup'', handler = EventManagerCallback ''mouseup''\<rparr>,
      \<lparr>onTarget = Container, eventType = ''wheel'', handler = EventManagerCallback ''wheel''\<rparr>,
      \<lparr>onTarget = Container, eventType = ''contextmenu'', handler = EventManagerCallback ''contextmenu''\<rparr>,
      \<lparr>onTarget = Document, eventType = ''keydown'', handler = EventManagerCallback ''keydown''\<rparr>,
      \<lparr>onTarget = Document, eventType = ''keyup'', handler = EventManagerCallback ''keyup''\<rparr>]"

lemma oc_domListeners:
  "domListeners (oc_setupEventListeners (beforeInit\<lparr>rendererPresent := True, scenePresent := True\<rparr>))
     = controlsListeners"
  by (simp add: oc_setupEventListeners_def beforeInit_def addListener_def controlsListeners_def)

lemma em_domListeners:
  "domListeners s = controlsListeners \<Longrightarrow>
   domListeners (em_setupEventListeners s) = controlsListeners @ eventManagerListeners"
  by (simp add: em_setupEventListeners_def addListener_def controlsListeners_def
      eventManagerListeners_def)

lemma init_domListeners:
  "domListeners (init beforeInit) = controlsListeners @ eventManagerListeners"
  by (simp add: init_def animate_def em_domListeners oc_domListeners)

lemma init_eventListeners:
  "eventListeners (init beforeInit) =
     [(Window, [(''resize'', EventManagerCallback ''resize'')]),
      (Container, [(''mousedown'', EventManagerCallback ''mousedown''),
                   (''mousemove'', EventManagerCallback ''mousemove''),
                   (''mouseup'', EventManagerCallback ''mouseup''),
                   (''wheel'', EventManagerCallback ''wheel''),
                   (''contextmenu'', EventManagerCallback ''contextmenu'')]),
      (Document, [(''keydown'', EventManagerCallback ''keydown''),
                  (''keyup'', EventManagerCallback ''keyup'')])]"
  by (simp add: init_def animate_def em_setupEventListeners_def oc_setupEventListeners_def
      beforeInit_def storeListener_def mapSet_def mapGet_def)

lemma init_frames:
  "set (pendingFrames (init beforeInit)) \<subseteq> set_option (animationId (init beforeInit))
   \<and> 0 \<notin> set (pendingFrames (init beforeInit))"
  by (simp add: init_def animate_def em_setupEventListeners_def oc_setupEventListeners_def
      beforeInit_def)

text \<open>
  C8, at the point where the code departs from it. The viewer is initialised and then
  disposed. A \<^verbatim>\<open>mousedown\<close> dispatched at the canvas ran the callback of the controls
  and, through the container, that of the event manager before; after \<^verbatim>\<open>dispose\<close> it
  still runs the callback of the controls. The same holds for \<^verbatim>\<open>keyup\<close> at the
  document.
\<close>

theorem controls_listeners_survive_dispose:
  "dispatchEvent DomElement ''mousedown'' (init beforeInit)
     = [ControlsCallback ''mousedown'', EventManagerCallback ''mousedown'']
   \<and> dispatchEvent DomElement ''mousedown'' (dispose (init beforeInit))
     = [ControlsCallback ''mousedown'']
   \<and> dispatchEvent Document ''keyup'' (dispose (init beforeInit))
     = [ControlsCallback ''keyup'']"
proof -
  have d: "domListeners (dispose (init beforeInit)) = controlsListeners"
    by (simp add: dispose_domListeners init_domListeners init_eventListeners
        controlsListeners_def eventManagerListeners_def)
  show ?thesis
    by (simp add: dispatchEvent_def d init_domListeners controlsListeners_def
        eventManagerListeners_def)
qed

end
